theory Spec2Isabelle
  imports Main "HOL-Library.Word" "HOL-Library.Multiset"
begin

text \<open>
  The script \<open>test_preview.py\<close> has one function, \<open>create_test_directory\<close>. It makes
  the directory \<open>test_preview_files\<close> beside the script, writes ten sample files into it,
  reports each on the console and returns the directory. The function is embedded below
  together with the functions of the Python library that it calls; the file system, the
  console and the refusals of the operating system are explicit.
\<close>

section \<open>Python text and bytes\<close>

text \<open>
  A Python \<open>str\<close> is a sequence of Unicode code points and a \<open>bytes\<close> value a sequence
  of octets. Both are kept apart: the script hands \<open>str\<close> values to files opened with
  \<open>encoding="utf-8"\<close>, and what reaches the disk is bytes.
\<close>

type_synonym str = "nat list"

type_synonym bytes = "8 word list"

definition lit :: "string \<Rightarrow> str" where
  \<comment> \<open>An ASCII literal of the source, as code points.\<close>
  "lit cs = map of_char cs"

definition str_mul :: "str \<Rightarrow> nat \<Rightarrow> str" where
  \<comment> \<open>Python's \<open>s * n\<close>.\<close>
  "str_mul s n = concat (replicate n s)"

definition utf8_codepoint :: "nat \<Rightarrow> bytes option" where
  \<comment> \<open>The strict UTF-8 codec on one code point; a surrogate is not encodable.\<close>
  "utf8_codepoint c =
     (if c < 0x80 then Some [of_nat c]
      else if c < 0x800 then Some [of_nat (0xC0 + c div 0x40), of_nat (0x80 + c mod 0x40)]
      else if 0xD800 \<le> c \<and> c < 0xE000 then None
      else if c < 0x10000 then
        Some [of_nat (0xE0 + c div 0x1000), of_nat (0x80 + c div 0x40 mod 0x40),
              of_nat (0x80 + c mod 0x40)]
      else if c < 0x110000 then
        Some [of_nat (0xF0 + c div 0x40000), of_nat (0x80 + c div 0x1000 mod 0x40),
              of_nat (0x80 + c div 0x40 mod 0x40), of_nat (0x80 + c mod 0x40)]
      else None)"

fun encode_utf8 :: "str \<Rightarrow> bytes option" where
  \<comment> \<open>\<open>s.encode("utf-8")\<close>; \<open>None\<close> stands for UnicodeEncodeError.\<close>
  "encode_utf8 [] = Some []"
| "encode_utf8 (c # cs) =
     (case utf8_codepoint c of
        None \<Rightarrow> None
      | Some b \<Rightarrow> (case encode_utf8 cs of None \<Rightarrow> None | Some bs \<Rightarrow> Some (b @ bs)))"

definition translate_newlines :: "str \<Rightarrow> str \<Rightarrow> str" where
  \<comment> \<open>A text file opened with the default \<open>newline=None\<close> writes each line feed as
      \<open>os.linesep\<close>: \<open>s.replace("\n", os.linesep)\<close>.\<close>
  "translate_newlines ls s = concat (map (\<lambda>c. if c = 10 then ls else [c]) s)"

section \<open>\<open>os.path\<close> (POSIX flavour)\<close>

text \<open>
  The functions of \<open>posixpath\<close> that the script calls (\<open>abspath\<close>, \<open>dirname\<close>,
  \<open>join\<close>) and those that they and \<open>os.makedirs\<close> call in turn (\<open>isabs\<close>, \<open>split\<close>,
  \<open>normpath\<close>), on \<open>str\<close> arguments.
\<close>

definition sep :: nat where
  "sep = 47"

definition curdir :: str where
  "curdir = lit ''.''"

definition pardir :: str where
  "pardir = lit ''..''"

definition isabs :: "str \<Rightarrow> bool" where
  \<comment> \<open>\<open>s.startswith('/')\<close>\<close>
  "isabs s = (case s of [] \<Rightarrow> False | c # _ \<Rightarrow> c = sep)"

definition endswith_sep :: "str \<Rightarrow> bool" where
  "endswith_sep s = (s \<noteq> [] \<and> last s = sep)"

definition os_path_join :: "str \<Rightarrow> str \<Rightarrow> str" where
  \<comment> \<open>\<open>os.path.join(a, b)\<close> with two arguments.\<close>
  "os_path_join a b =
     (if isabs b then b
      else if a = [] \<or> endswith_sep a then a @ b
      else a @ [sep] @ b)"

definition rstrip_sep :: "str \<Rightarrow> str" where
  \<comment> \<open>\<open>s.rstrip('/')\<close>\<close>
  "rstrip_sep s = rev (dropWhile (\<lambda>c. c = sep) (rev s))"

definition os_path_split :: "str \<Rightarrow> str \<times> str" where
  \<comment> \<open>\<open>i = p.rfind('/') + 1; head, tail = p[:i], p[i:]\<close>; the head loses its
      trailing slashes unless it consists of slashes only.\<close>
  "os_path_split p =
     (let head = rev (dropWhile (\<lambda>c. c \<noteq> sep) (rev p));
          tail = rev (takeWhile (\<lambda>c. c \<noteq> sep) (rev p))
      in (if head \<noteq> [] \<and> \<not> list_all (\<lambda>c. c = sep) head then rstrip_sep head else head,
          tail))"

definition os_path_dirname :: "str \<Rightarrow> str" where
  "os_path_dirname p = fst (os_path_split p)"

definition os_path_basename :: "str \<Rightarrow> str" where
  "os_path_basename p = snd (os_path_split p)"

fun str_split :: "nat \<Rightarrow> str \<Rightarrow> str list" where
  \<comment> \<open>\<open>s.split(c)\<close> for a one-character separator.\<close>
  "str_split c [] = [[]]"
| "str_split c (x # xs) =
     (if x = c then [] # str_split c xs
      else (case str_split c xs of
              [] \<Rightarrow> [[x]]
            | y # ys \<Rightarrow> (x # y) # ys))"

fun str_join :: "str \<Rightarrow> str list \<Rightarrow> str" where
  \<comment> \<open>\<open>s.join(parts)\<close>\<close>
  "str_join s [] = []"
| "str_join s [x] = x"
| "str_join s (x # y # ys) = x @ s @ str_join s (y # ys)"

definition initial_slashes :: "str \<Rightarrow> nat" where
  \<comment> \<open>POSIX keeps exactly two leading slashes apart from one; three or more are one.\<close>
  "initial_slashes p =
     (if isabs p then
        (if take 2 p = [sep, sep] \<and> take 3 p \<noteq> [sep, sep, sep] then 2 else 1)
      else 0)"

definition normpath_step :: "nat \<Rightarrow> str list \<Rightarrow> str \<Rightarrow> str list" where
  \<comment> \<open>One round of the loop over the components of \<open>normpath\<close>.\<close>
  "normpath_step slashes new_comps cmp =
     (if cmp = [] \<or> cmp = curdir then new_comps
      else if cmp \<noteq> pardir \<or> (slashes = 0 \<and> new_comps = [])
              \<or> (new_comps \<noteq> [] \<and> last new_comps = pardir)
        then new_comps @ [cmp]
      else if new_comps \<noteq> [] then butlast new_comps
      else new_comps)"

definition os_path_normpath :: "str \<Rightarrow> str" where
  "os_path_normpath p =
     (if p = [] then curdir
      else
        let slashes = initial_slashes p;
            comps = foldl (normpath_step slashes) [] (str_split sep p);
            q = replicate slashes sep @ str_join [sep] comps
        in if q = [] then curdir else q)"

section \<open>The file system, the console and what can go wrong\<close>

text \<open>
  The file system maps a path to what is stored there. Paths are the normalised absolute
  strings that \<open>os.path.abspath\<close> yields, so a path names one entry. The console is the
  text written to \<open>sys.stdout\<close> so far.
\<close>

datatype node = Dir | File bytes

record world =
  fs :: "str \<rightharpoonup> node"
  stdout :: str

text \<open>
  Whether the operating system lets an operation through is not decided by the script: the
  environment holds, for every system call, the error number it answers with, if any.
  These are the failures of permission and of resources; the errors that follow from what
  the file system holds (an entry that exists, a parent that is missing) are computed from
  the \<open>world\<close>. The environment also holds what the script reads from its surroundings:
  \<open>__file__\<close>, the result of \<open>os.getcwd()\<close>, and \<open>os.linesep\<close>, which the text layer
  of a file opened with the default \<open>newline\<close> writes for every line feed.

  Three simplifications: \<open>os.path.exists\<close> and \<open>os.path.isdir\<close> read the file system
  and do not fail; the bytes of a \<open>write\<close> reach the file with the call, not when a
  buffer is flushed; and \<open>print\<close> always succeeds.
\<close>

datatype errno = EACCES | EPERM | EROFS | ENOSPC | EDQUOT | EIO

datatype syscall = Mkdir str | Open str | Write str bytes

datatype exn =
    FileExistsError str
  | FileNotFoundError str
  | NotADirectoryError str
  | IsADirectoryError str
  | PermissionError str
  | OSError errno str
  | UnicodeEncodeError
  | ValueError

record env =
  script_file :: str
  getcwd :: str
  linesep :: str
  fault :: "syscall \<Rightarrow> errno option"

type_synonym 'a outcome = "(exn + 'a) \<times> world"

type_synonym action = "world \<Rightarrow> unit outcome"

definition os_error :: "errno \<Rightarrow> str \<Rightarrow> exn" where
  \<comment> \<open>Python raises the subclass of OSError that belongs to the error number.\<close>
  "os_error e p = (if e = EACCES \<or> e = EPERM then PermissionError p else OSError e p)"

definition os_path_abspath :: "env \<Rightarrow> str \<Rightarrow> str" where
  "os_path_abspath env p =
     os_path_normpath (if isabs p then p else os_path_join (getcwd env) p)"

definition os_mkdir :: "env \<Rightarrow> str \<Rightarrow> action" where
  "os_mkdir env p w =
     (case fault env (Mkdir p) of
        Some e \<Rightarrow> (Inl (os_error e p), w)
      | None \<Rightarrow>
          if fs w p \<noteq> None then (Inl (FileExistsError p), w)
          else (case fs w (os_path_dirname p) of
                  None \<Rightarrow> (Inl (FileNotFoundError p), w)
                | Some (File _) \<Rightarrow> (Inl (NotADirectoryError p), w)
                | Some Dir \<Rightarrow> (Inr (), w\<lparr>fs := (fs w)(p \<mapsto> Dir)\<rparr>)))"

definition mkdir_exist_ok :: "env \<Rightarrow> str \<Rightarrow> bool \<Rightarrow> action" where
  \<comment> \<open>\<open>try: mkdir(name) except OSError: if not exist_ok or not path.isdir(name): raise\<close>\<close>
  "mkdir_exist_ok env name exist_ok w =
     (case os_mkdir env name w of
        (Inl e, w1) \<Rightarrow>
          if \<not> exist_ok \<or> fs w1 name \<noteq> Some Dir then (Inl e, w1) else (Inr (), w1)
      | (Inr u, w1) \<Rightarrow> (Inr u, w1))"

definition makedirs_split :: "str \<Rightarrow> str \<times> str" where
  \<comment> \<open>\<open>head, tail = path.split(name); if not tail: head, tail = path.split(head)\<close>\<close>
  "makedirs_split name =
     (if snd (os_path_split name) = [] then os_path_split (fst (os_path_split name))
      else os_path_split name)"

definition is_FileExistsError :: "exn \<Rightarrow> bool" where
  "is_FileExistsError e = (case e of FileExistsError _ \<Rightarrow> True | _ \<Rightarrow> False)"

function os_makedirs :: "env \<Rightarrow> str \<Rightarrow> bool \<Rightarrow> action" where
  "os_makedirs env name exist_ok w =
     (if fst (makedirs_split name) \<noteq> [] \<and> snd (makedirs_split name) \<noteq> []
         \<and> fs w (fst (makedirs_split name)) = None
      then
        (case os_makedirs env (fst (makedirs_split name)) exist_ok w of
           (Inl e, w1) \<Rightarrow>
             if is_FileExistsError e then
               (if snd (makedirs_split name) = curdir then (Inr (), w1)
                else mkdir_exist_ok env name exist_ok w1)
             else (Inl e, w1)
         | (Inr u, w1) \<Rightarrow>
             if snd (makedirs_split name) = curdir then (Inr (), w1)
             else mkdir_exist_ok env name exist_ok w1)
      else mkdir_exist_ok env name exist_ok w)"
  by pat_completeness auto

lemma length_rstrip_sep: "length (rstrip_sep s) \<le> length s"
  by (simp add: rstrip_sep_def length_dropWhile_le order_trans [OF length_dropWhile_le])

lemma length_takeWhile_dropWhile:
  "length (takeWhile P xs) + length (dropWhile P xs) = length xs"
  by (induction xs) auto

lemma length_os_path_split:
  "length (fst (os_path_split p)) + length (snd (os_path_split p)) \<le> length p"
proof -
  let ?h = "rev (dropWhile (\<lambda>c. c \<noteq> sep) (rev p))"
  let ?t = "rev (takeWhile (\<lambda>c. c \<noteq> sep) (rev p))"
  have eq: "length ?h + length ?t = length p"
    using length_takeWhile_dropWhile [of "\<lambda>c. c \<noteq> sep" "rev p"] by simp
  have "length (rstrip_sep ?h) \<le> length ?h"
    by (rule length_rstrip_sep)
  with eq show ?thesis
    by (auto simp: os_path_split_def Let_def)
qed

lemma length_makedirs_split:
  assumes "snd (makedirs_split name) \<noteq> []"
  shows "length (fst (makedirs_split name)) < length name"
proof (cases "snd (os_path_split name) = []")
  case True
  let ?again = "os_path_split (fst (os_path_split name))"
  from True have ms: "makedirs_split name = ?again"
    by (simp add: makedirs_split_def)
  have a: "length (fst ?again) + length (snd ?again) \<le> length (fst (os_path_split name))"
    by (rule length_os_path_split)
  have b: "length (fst (os_path_split name)) \<le> length name"
    using length_os_path_split [of name] by simp
  have c: "0 < length (snd ?again)"
    using assms ms by simp
  from a b c show ?thesis
    unfolding ms by linarith
next
  case False
  then have ms: "makedirs_split name = os_path_split name"
    by (simp add: makedirs_split_def)
  have "0 < length (snd (os_path_split name))"
    using False by simp
  with length_os_path_split [of name] show ?thesis
    unfolding ms by linarith
qed

termination os_makedirs
  by (relation "measure (\<lambda>(env, name, exist_ok, w). length name)")
     (auto simp: length_makedirs_split)

declare os_makedirs.simps [simp del]

definition open_w :: "env \<Rightarrow> str \<Rightarrow> action" where
  \<comment> \<open>\<open>open(p, "w", encoding="utf-8")\<close>: the file is created, or cut to length zero.\<close>
  "open_w env p w =
     (case fault env (Open p) of
        Some e \<Rightarrow> (Inl (os_error e p), w)
      | None \<Rightarrow>
          (case fs w p of
             Some Dir \<Rightarrow> (Inl (IsADirectoryError p), w)
           | Some (File _) \<Rightarrow> (Inr (), w\<lparr>fs := (fs w)(p \<mapsto> File [])\<rparr>)
           | None \<Rightarrow>
               (case fs w (os_path_dirname p) of
                  None \<Rightarrow> (Inl (FileNotFoundError p), w)
                | Some (File _) \<Rightarrow> (Inl (NotADirectoryError p), w)
                | Some Dir \<Rightarrow> (Inr (), w\<lparr>fs := (fs w)(p \<mapsto> File [])\<rparr>))))"

definition f_write :: "env \<Rightarrow> str \<Rightarrow> str \<Rightarrow> action" where
  \<comment> \<open>\<open>f.write(s)\<close> on the file opened at \<open>p\<close>: newline translation, then the codec,
      then the bytes go to the end of the file.\<close>
  "f_write env p s w =
     (case encode_utf8 (translate_newlines (linesep env) s) of
        None \<Rightarrow> (Inl UnicodeEncodeError, w)
      | Some bs \<Rightarrow>
          (case fault env (Write p bs) of
             Some e \<Rightarrow> (Inl (os_error e p), w)
           | None \<Rightarrow>
               (case fs w p of
                  Some (File old) \<Rightarrow> (Inr (), w\<lparr>fs := (fs w)(p \<mapsto> File (old @ bs))\<rparr>)
                | _ \<Rightarrow> (Inl ValueError, w))))"

definition print :: "str \<Rightarrow> action" where
  \<comment> \<open>\<open>print(s)\<close> writes \<open>s\<close> and a line feed to \<open>sys.stdout\<close>.\<close>
  "print s w = (Inr (), w\<lparr>stdout := stdout w @ s @ [10]\<rparr>)"

fun seq :: "action list \<Rightarrow> action" where
  \<comment> \<open>Statements one after the other: the first exception ends the block.\<close>
  "seq [] w = (Inr (), w)"
| "seq (a # as) w = (case a w of (Inl e, w1) \<Rightarrow> (Inl e, w1) | (Inr u, w1) \<Rightarrow> seq as w1)"

definition with_open_w :: "env \<Rightarrow> str \<Rightarrow> (str \<Rightarrow> action list) \<Rightarrow> action" where
  \<comment> \<open>\<open>with open(p, "w", encoding="utf-8") as f: body\<close>; closing the file changes
      nothing that the model holds.\<close>
  "with_open_w env p body w =
     (case open_w env p w of
        (Inl e, w1) \<Rightarrow> (Inl e, w1)
      | (Inr u, w1) \<Rightarrow> seq (body p) w1)"

definition returning :: "'a \<Rightarrow> unit outcome \<Rightarrow> 'a outcome" where
  \<comment> \<open>\<open>return v\<close> at the end of a block.\<close>
  "returning v r = (case r of (Inl e, w) \<Rightarrow> (Inl e, w) | (Inr u, w) \<Rightarrow> (Inr v, w))"

section \<open>The sample files\<close>

text \<open>
  The string literals of the source, one line of the source on each line below. The four
  \<open>write\<close> calls for \<open>sample.txt\<close> have a literal each.
\<close>

definition sample_txt_line1 :: str where
  \<open>sample_txt_line1 =
     lit ''This is a sample text file for preview testing.\<newline>''\<close>

definition sample_txt_line2 :: str where
  \<open>sample_txt_line2 =
     lit ''It contains multiple lines of text.\<newline>''\<close>

definition sample_txt_line3 :: str where
  \<open>sample_txt_line3 =
     lit ''Line 3: Testing preview functionality.\<newline>''\<close>

definition sample_txt_line4 :: str where
  \<open>sample_txt_line4 =
     lit ''Line 4: Hello World!\<newline>''\<close>

definition sample_json_text :: str where
  \<open>sample_json_text =
     lit ''{\<newline>'' @
     lit ''    "name": "Preview Test",\<newline>'' @
     lit ''    "version": "1.0.0",\<newline>'' @
     lit ''    "description": "Sample JSON file for preview testing",\<newline>'' @
     lit ''    "features": [\<newline>'' @
     lit ''        "Syntax highlighting",\<newline>'' @
     lit ''        "Dark/Light theme support",\<newline>'' @
     lit ''        "Line numbers"\<newline>'' @
     lit ''    ],\<newline>'' @
     lit ''    "settings": {\<newline>'' @
     lit ''        "enabled": true,\<newline>'' @
     lit ''        "maxSize": 5000000\<newline>'' @
     lit ''    }\<newline>'' @
     lit ''}''\<close>

definition sample_py_text :: str where
  \<open>sample_py_text =
     lit ''#!/usr/bin/env python3\<newline>'' @
     lit ''"""Sample Python file for preview testing."""\<newline>'' @
     lit ''\<newline>'' @
     lit ''def hello_world():\<newline>'' @
     lit ''    """Print hello world message."""\<newline>'' @
     lit ''    print("Hello, World!")\<newline>'' @
     lit ''    return True\<newline>'' @
     lit ''\<newline>'' @
     lit ''class Calculator:\<newline>'' @
     lit ''    """A simple calculator class."""\<newline>'' @
     lit ''    \<newline>'' @
     lit ''    def __init__(self):\<newline>'' @
     lit ''        self.result = 0\<newline>'' @
     lit ''    \<newline>'' @
     lit ''    def add(self, a, b):\<newline>'' @
     lit ''        """Add two numbers."""\<newline>'' @
     lit ''        self.result = a + b\<newline>'' @
     lit ''        return self.result\<newline>'' @
     lit ''    \<newline>'' @
     lit ''    def subtract(self, a, b):\<newline>'' @
     lit ''        """Subtract two numbers."""\<newline>'' @
     lit ''        self.result = a - b\<newline>'' @
     lit ''        return self.result\<newline>'' @
     lit ''\<newline>'' @
     lit ''if __name__ == "__main__":\<newline>'' @
     lit ''    hello_world()\<newline>'' @
     lit ''    calc = Calculator()\<newline>'' @
     lit ''    print(f"5 + 3 = {calc.add(5, 3)}")\<newline>''\<close>

definition sample_cs_text :: str where
  \<open>sample_cs_text =
     lit ''using System;\<newline>'' @
     lit ''\<newline>'' @
     lit ''namespace PreviewTest\<newline>'' @
     lit ''{\<newline>'' @
     lit ''    /// <summary>\<newline>'' @
     lit ''    /// Sample C# class for preview testing.\<newline>'' @
     lit ''    /// </summary>\<newline>'' @
     lit ''    public class Sample\<newline>'' @
     lit ''    {\<newline>'' @
     lit ''        public string Name { get; set; }\<newline>'' @
     lit ''        public int Value { get; set; }\<newline>'' @
     lit ''        \<newline>'' @
     lit ''        public Sample(string name, int value)\<newline>'' @
     lit ''        {\<newline>'' @
     lit ''            Name = name;\<newline>'' @
     lit ''            Value = value;\<newline>'' @
     lit ''        }\<newline>'' @
     lit ''        \<newline>'' @
     lit ''        public void PrintInfo()\<newline>'' @
     lit ''        {\<newline>'' @
     lit ''            Console.WriteLine($"Name: {Name}, Value: {Value}");\<newline>'' @
     lit ''        }\<newline>'' @
     lit ''    }\<newline>'' @
     lit ''    \<newline>'' @
     lit ''    class Program\<newline>'' @
     lit ''    {\<newline>'' @
     lit ''        static void Main(string[] args)\<newline>'' @
     lit ''        {\<newline>'' @
     lit ''            var sample = new Sample("Test", 42);\<newline>'' @
     lit ''            sample.PrintInfo();\<newline>'' @
     lit ''        }\<newline>'' @
     lit ''    }\<newline>'' @
     lit ''}\<newline>''\<close>

definition sample_html_text :: str where
  \<open>sample_html_text =
     lit ''<!DOCTYPE html>\<newline>'' @
     lit ''<html lang="en">\<newline>'' @
     lit ''<head>\<newline>'' @
     lit ''    <meta charset="UTF-8">\<newline>'' @
     lit ''    <meta name="viewport" content="width=device-width, initial-scale=1.0">\<newline>'' @
     lit ''    <title>Preview Test</title>\<newline>'' @
     lit ''    <style>\<newline>'' @
     lit ''        body {\<newline>'' @
     lit ''            font-family: 'Segoe UI', sans-serif;\<newline>'' @
     lit ''            background: linear-gradient(135deg, #667eea 0%, #764ba2 100%);\<newline>'' @
     lit ''            color: white;\<newline>'' @
     lit ''            padding: 40px;\<newline>'' @
     lit ''        }\<newline>'' @
     lit ''        h1 { color: #fff; }\<newline>'' @
     lit ''        .card {\<newline>'' @
     lit ''            background: white;\<newline>'' @
     lit ''            color: #333;\<newline>'' @
     lit ''            padding: 20px;\<newline>'' @
     lit ''            border-radius: 8px;\<newline>'' @
     lit ''            box-shadow: 0 4px 12px rgba(0,0,0,0.2);\<newline>'' @
     lit ''        }\<newline>'' @
     lit ''    </style>\<newline>'' @
     lit ''</head>\<newline>'' @
     lit ''<body>\<newline>'' @
     lit ''    <h1>Preview Test Page</h1>\<newline>'' @
     lit ''    <div class="card">\<newline>'' @
     lit ''        <h2>Welcome</h2>\<newline>'' @
     lit ''        <p>This is a sample HTML file for testing the preview functionality.</p>\<newline>'' @
     lit ''    </div>\<newline>'' @
     lit ''</body>\<newline>'' @
     lit ''</html>\<newline>''\<close>

definition sample_css_text :: str where
  \<open>sample_css_text =
     lit ''/* Sample CSS file for preview testing */\<newline>'' @
     lit ''\<newline>'' @
     lit '':root {\<newline>'' @
     lit ''    --primary-color: #007ACC;\<newline>'' @
     lit ''    --secondary-color: #3E3E42;\<newline>'' @
     lit ''    --text-color: #CCCCCC;\<newline>'' @
     lit ''    --background-color: #1E1E1E;\<newline>'' @
     lit ''}\<newline>'' @
     lit ''\<newline>'' @
     lit ''body {\<newline>'' @
     lit ''    font-family: 'Segoe UI', Tahoma, Geneva, Verdana, sans-serif;\<newline>'' @
     lit ''    background-color: var(--background-color);\<newline>'' @
     lit ''    color: var(--text-color);\<newline>'' @
     lit ''    margin: 0;\<newline>'' @
     lit ''    padding: 20px;\<newline>'' @
     lit ''    line-height: 1.6;\<newline>'' @
     lit ''}\<newline>'' @
     lit ''\<newline>'' @
     lit ''.container {\<newline>'' @
     lit ''    max-width: 1200px;\<newline>'' @
     lit ''    margin: 0 auto;\<newline>'' @
     lit ''    padding: 20px;\<newline>'' @
     lit ''}\<newline>'' @
     lit ''\<newline>'' @
     lit ''.button {\<newline>'' @
     lit ''    background-color: var(--primary-color);\<newline>'' @
     lit ''    color: white;\<newline>'' @
     lit ''    border: none;\<newline>'' @
     lit ''    padding: 10px 20px;\<newline>'' @
     lit ''    border-radius: 4px;\<newline>'' @
     lit ''    cursor: pointer;\<newline>'' @
     lit ''    transition: background-color 0.3s ease;\<newline>'' @
     lit ''}\<newline>'' @
     lit ''\<newline>'' @
     lit ''.button:hover {\<newline>'' @
     lit ''    background-color: #005a9e;\<newline>'' @
     lit ''}\<newline>'' @
     lit ''\<newline>'' @
     lit ''/* Responsive design */\<newline>'' @
     lit ''@media (max-width: 768px) {\<newline>'' @
     lit ''    .container {\<newline>'' @
     lit ''        padding: 10px;\<newline>'' @
     lit ''    }\<newline>'' @
     lit ''}\<newline>''\<close>

definition sample_md_text :: str where
  \<open>sample_md_text =
     lit ''# Preview Test\<newline>'' @
     lit ''\<newline>'' @
     lit ''This is a sample **Markdown** file for testing.\<newline>'' @
     lit ''\<newline>'' @
     lit ''## Features\<newline>'' @
     lit ''\<newline>'' @
     lit ''- Syntax highlighting\<newline>'' @
     lit ''- Dark/Light theme support\<newline>'' @
     lit ''- Line numbers\<newline>'' @
     lit ''\<newline>'' @
     lit ''## Code Example\<newline>'' @
     lit ''\<newline>'' @
     lit ''```python\<newline>'' @
     lit ''def hello():\<newline>'' @
     lit ''    print("Hello, World!")\<newline>'' @
     lit ''```\<newline>'' @
     lit ''\<newline>'' @
     lit ''## Table\<newline>'' @
     lit ''\<newline>'' @
     lit ''| Feature | Status |\<newline>'' @
     lit ''|---------|--------|\<newline>'' @
     lit ''| Images | '' @ [0x2705] @ lit '' |\<newline>'' @
     lit ''| Text | '' @ [0x2705] @ lit '' |\<newline>'' @
     lit ''| PDF | '' @ [0x2705] @ lit '' |\<newline>'' @
     lit ''\<newline>'' @
     lit ''---\<newline>'' @
     lit ''\<newline>'' @
     lit ''*Created for preview testing*\<newline>''\<close>

definition sample_xml_text :: str where
  \<open>sample_xml_text =
     lit ''<?xml version="1.0" encoding="UTF-8"?>\<newline>'' @
     lit ''<project>\<newline>'' @
     lit ''    <name>Preview Test</name>\<newline>'' @
     lit ''    <version>1.0.0</version>\<newline>'' @
     lit ''    <description>Sample XML file for preview testing</description>\<newline>'' @
     lit ''    <features>\<newline>'' @
     lit ''        <feature name="Syntax highlighting" enabled="true"/>\<newline>'' @
     lit ''        <feature name="Dark theme" enabled="true"/>\<newline>'' @
     lit ''        <feature name="Line numbers" enabled="true"/>\<newline>'' @
     lit ''    </features>\<newline>'' @
     lit ''    <settings>\<newline>'' @
     lit ''        <setting key="maxSize" value="5000000"/>\<newline>'' @
     lit ''        <setting key="timeout" value="10"/>\<newline>'' @
     lit ''    </settings>\<newline>'' @
     lit ''</project>\<newline>''\<close>

definition sample_csv_text :: str where
  \<open>sample_csv_text =
     lit ''id,name,value,status\<newline>'' @
     lit ''1,Item A,100,active\<newline>'' @
     lit ''2,Item B,200,inactive\<newline>'' @
     lit ''3,Item C,300,active\<newline>'' @
     lit ''4,Item D,400,pending\<newline>'' @
     lit ''5,Item E,500,active\<newline>''\<close>

definition sample_sql_text :: str where
  \<open>sample_sql_text =
     lit ''-- Sample SQL file for preview testing\<newline>'' @
     lit ''-- Create a sample table\<newline>'' @
     lit ''\<newline>'' @
     lit ''CREATE TABLE users (\<newline>'' @
     lit ''    id INT PRIMARY KEY AUTO_INCREMENT,\<newline>'' @
     lit ''    username VARCHAR(50) NOT NULL,\<newline>'' @
     lit ''    email VARCHAR(100) UNIQUE,\<newline>'' @
     lit ''    created_at TIMESTAMP DEFAULT CURRENT_TIMESTAMP\<newline>'' @
     lit '');\<newline>'' @
     lit ''\<newline>'' @
     lit ''-- Insert sample data\<newline>'' @
     lit ''INSERT INTO users (username, email) VALUES\<newline>'' @
     lit ''('john_doe', 'john@example.com'),\<newline>'' @
     lit ''('jane_smith', 'jane@example.com'),\<newline>'' @
     lit ''('bob_wilson', 'bob@example.com');\<newline>'' @
     lit ''\<newline>'' @
     lit ''-- Select all users\<newline>'' @
     lit ''SELECT * FROM users WHERE id > 0 ORDER BY created_at DESC;\<newline>'' @
     lit ''\<newline>'' @
     lit ''-- Update a user\<newline>'' @
     lit ''UPDATE users SET email = 'new_email@example.com' WHERE username = 'john_doe';\<newline>''\<close>
section \<open>The script\<close>

text \<open>
  The body of \<open>create_test_directory\<close>, statement by statement. The local variables of
  the source are bound by \<open>let\<close>, and an f-string is the concatenation of its parts.
\<close>

definition created :: str where
  "created = [0x2705] @ lit '' Created: ''"

definition create_test_directory :: "env \<Rightarrow> world \<Rightarrow> str outcome" where
  "create_test_directory env w =
     (let test_dir =
            os_path_join (os_path_dirname (os_path_abspath env (script_file env)))
              (lit ''test_preview_files'');
          txt_file = os_path_join test_dir (lit ''sample.txt'');
          json_file = os_path_join test_dir (lit ''sample.json'');
          py_file = os_path_join test_dir (lit ''sample.py'');
          cs_file = os_path_join test_dir (lit ''Sample.cs'');
          html_file = os_path_join test_dir (lit ''sample.html'');
          css_file = os_path_join test_dir (lit ''sample.css'');
          md_file = os_path_join test_dir (lit ''README.md'');
          xml_file = os_path_join test_dir (lit ''sample.xml'');
          csv_file = os_path_join test_dir (lit ''sample.csv'');
          sql_file = os_path_join test_dir (lit ''sample.sql'')
      in returning test_dir
           (seq
              [os_makedirs env test_dir True,
               print (lit ''Creating test files in: '' @ test_dir),
               print (str_mul (lit ''-'') 50),
               with_open_w env txt_file (\<lambda>f.
                 [f_write env f sample_txt_line1,
                  f_write env f sample_txt_line2,
                  f_write env f sample_txt_line3,
                  f_write env f sample_txt_line4]),
               print (created @ txt_file),
               with_open_w env json_file (\<lambda>f. [f_write env f sample_json_text]),
               print (created @ json_file),
               with_open_w env py_file (\<lambda>f. [f_write env f sample_py_text]),
               print (created @ py_file),
               with_open_w env cs_file (\<lambda>f. [f_write env f sample_cs_text]),
               print (created @ cs_file),
               with_open_w env html_file (\<lambda>f. [f_write env f sample_html_text]),
               print (created @ html_file),
               with_open_w env css_file (\<lambda>f. [f_write env f sample_css_text]),
               print (created @ css_file),
               with_open_w env md_file (\<lambda>f. [f_write env f sample_md_text]),
               print (created @ md_file),
               with_open_w env xml_file (\<lambda>f. [f_write env f sample_xml_text]),
               print (created @ xml_file),
               with_open_w env csv_file (\<lambda>f. [f_write env f sample_csv_text]),
               print (created @ csv_file),
               with_open_w env sql_file (\<lambda>f. [f_write env f sample_sql_text]),
               print (created @ sql_file),
               print (str_mul (lit ''-'') 50),
               print ([10, 0x1F389] @ lit '' Test files created successfully!''),
               print ([10] @ lit ''To test preview functionality:''),
               print (lit ''1. Open OfflineProjectManager''),
               print (lit ''2. Create or open a project''),
               print (lit ''3. Add folder: '' @ test_dir),
               print (lit ''4. Click on each file to test preview'')]
              w))"

section \<open>The script as a table of fixtures\<close>

text \<open>
  The ten blocks of the script differ in the file name and in the text only. The names
  below give the script's local \<open>test_dir\<close>, its ten (name, text) pairs in the order
  of the source, and its statements as one list built from a table; the lemma
  \<open>create_test_directory_statements\<close> shows that the list built from \<open>fixtures\<close> is the
  body of the function as written above.
\<close>

definition test_dir :: "env \<Rightarrow> str" where
  "test_dir env =
     os_path_join (os_path_dirname (os_path_abspath env (script_file env)))
       (lit ''test_preview_files'')"

definition fixtures :: "(str \<times> str list) list" where
  "fixtures =
     [(lit ''sample.txt'',
         [sample_txt_line1, sample_txt_line2, sample_txt_line3, sample_txt_line4]),
      (lit ''sample.json'', [sample_json_text]),
      (lit ''sample.py'', [sample_py_text]),
      (lit ''Sample.cs'', [sample_cs_text]),
      (lit ''sample.html'', [sample_html_text]),
      (lit ''sample.css'', [sample_css_text]),
      (lit ''README.md'', [sample_md_text]),
      (lit ''sample.xml'', [sample_xml_text]),
      (lit ''sample.csv'', [sample_csv_text]),
      (lit ''sample.sql'', [sample_sql_text])]"

definition literal :: "str \<times> str list \<Rightarrow> str" where
  \<comment> \<open>The text of a fixture: what its \<open>write\<close> calls hand over, one after the other.\<close>
  "literal fx = concat (snd fx)"

definition target :: "str \<Rightarrow> str \<times> str list \<Rightarrow> str" where
  "target d fx = os_path_join d (fst fx)"

definition write_file :: "env \<Rightarrow> str \<Rightarrow> str \<times> str list \<Rightarrow> action" where
  "write_file env d fx = with_open_w env (target d fx) (\<lambda>f. map (f_write env f) (snd fx))"

definition report :: "str \<Rightarrow> str \<times> str list \<Rightarrow> action" where
  "report d fx = print (created @ target d fx)"

definition fixture_block :: "env \<Rightarrow> str \<Rightarrow> str \<times> str list \<Rightarrow> action list" where
  "fixture_block env d fx = [write_file env d fx, report d fx]"

definition write_all :: "env \<Rightarrow> str \<Rightarrow> (str \<times> str list) list \<Rightarrow> action" where
  "write_all env d fxs = seq (concat (map (fixture_block env d) fxs))"

definition header :: "str \<Rightarrow> action list" where
  "header d =
     [print (lit ''Creating test files in: '' @ d),
      print (str_mul (lit ''-'') 50)]"

definition summary :: "str \<Rightarrow> action list" where
  "summary d =
     [print (str_mul (lit ''-'') 50),
      print ([10, 0x1F389] @ lit '' Test files created successfully!''),
      print ([10] @ lit ''To test preview functionality:''),
      print (lit ''1. Open OfflineProjectManager''),
      print (lit ''2. Create or open a project''),
      print (lit ''3. Add folder: '' @ d),
      print (lit ''4. Click on each file to test preview'')]"

definition statements :: "env \<Rightarrow> (str \<times> str list) list \<Rightarrow> action list" where
  "statements env fxs =
     os_makedirs env (test_dir env) True # header (test_dir env)
       @ concat (map (fixture_block env (test_dir env)) fxs)
       @ summary (test_dir env)"

definition encode_text :: "env \<Rightarrow> str \<Rightarrow> bytes option" where
  \<comment> \<open>What a text file of this environment stores for a text.\<close>
  "encode_text env s = encode_utf8 (translate_newlines (linesep env) s)"

section \<open>Notions used in the statements and proofs\<close>

text \<open>
  The definitions of this section are not part of the script. They name the sample
  environments in which the theorems are tried, the conditions under which an operation
  goes through, and the text and the files that a run leaves behind.
\<close>

definition scalar :: "nat \<Rightarrow> bool" where
  \<comment> \<open>A Unicode scalar value: a code point that the UTF-8 codec accepts.\<close>
  "scalar c = (c < 0xD800 \<or> (0xE000 \<le> c \<and> c < 0x110000))"

definition dirlike :: "str \<Rightarrow> bool" where
  \<comment> \<open>The shape of every result of \<open>os.path.dirname\<close>: empty, slashes
      only, or not ending in a slash.\<close>
  "dirlike h = (h = [] \<or> list_all (\<lambda>c. c = sep) h \<or> last h \<noteq> sep)"

definition grows :: "nat \<Rightarrow> world \<Rightarrow> world \<Rightarrow> bool" where
  \<comment> \<open>What \<open>os.makedirs\<close> may do to the world: nothing is printed,
      and an entry either stays or is a new directory whose path is no longer than
      \<open>n\<close>.\<close>
  "grows n w w1 =
     (stdout w1 = stdout w
      \<and> (\<forall>p. fs w1 p = fs w p \<or> (fs w p = None \<and> fs w1 p = Some Dir \<and> length p \<le> n)))"

definition open_ok :: "env \<Rightarrow> world \<Rightarrow> str \<Rightarrow> bool" where
  \<comment> \<open>The condition under which \<open>open(p, "w")\<close> returns.\<close>
  "open_ok env w p =
     (fault env (Open p) = None
      \<and> (case fs w p of
            Some Dir \<Rightarrow> False
          | Some (File _) \<Rightarrow> True
          | None \<Rightarrow> fs w (os_path_dirname p) = Some Dir))"

definition writes_ok :: "env \<Rightarrow> str \<Rightarrow> str list \<Rightarrow> bool" where
  \<comment> \<open>The condition under which every \<open>write\<close> of a block
      returns.\<close>
  "writes_ok env p chunks =
     (\<forall>c \<in> set chunks.
        case encode_text env c of None \<Rightarrow> False | Some b \<Rightarrow> fault env (Write p b) = None)"

definition file_ok :: "env \<Rightarrow> str \<Rightarrow> world \<Rightarrow> str \<times> str list \<Rightarrow> bool" where
  \<comment> \<open>The condition under which the \<open>with\<close> block of a fixture
      returns.\<close>
  "file_ok env d w fx = (open_ok env w (target d fx) \<and> writes_ok env (target d fx) (snd fx))"

definition stored :: "env \<Rightarrow> str \<times> str list \<Rightarrow> node" where
  \<comment> \<open>What the file of a fixture holds when its block has returned.\<close>
  "stored env fx = File (the (encode_text env (literal fx)))"

definition layout :: "str \<Rightarrow> (str \<times> str list) list \<Rightarrow> bool" where
  \<comment> \<open>Names that are different, not empty and free of separators, below a
      directory of the shape that \<open>dirname\<close> yields.\<close>
  "layout d fxs =
     (dirlike d \<and> distinct (map fst fxs) \<and> (\<forall>fx \<in> set fxs. fst fx \<noteq> [] \<and> sep \<notin> set (fst fx)))"

definition unlines :: "str list \<Rightarrow> str" where
  \<comment> \<open>The text of a list of lines, each ended by a line feed.\<close>
  "unlines ls = concat (map (\<lambda>l. l @ [10]) ls)"

definition confirmation :: "str \<Rightarrow> str \<times> str list \<Rightarrow> str" where
  \<comment> \<open>The line printed after the block of a fixture.\<close>
  "confirmation d fx = created @ target d fx"

definition header_lines :: "str \<Rightarrow> str list" where
  \<comment> \<open>The two lines printed before the first file.\<close>
  "header_lines d = [lit ''Creating test files in: '' @ d, str_mul (lit ''-'') 50]"

definition summary_lines :: "str \<Rightarrow> str list" where
  \<comment> \<open>The lines printed after the last file; a \<open>print\<close> of a text
      that starts with a line feed gives an empty line first.\<close>
  "summary_lines d =
     [str_mul (lit ''-'') 50,
      [],
      [0x1F389] @ lit '' Test files created successfully!'',
      [],
      lit ''To test preview functionality:'',
      lit ''1. Open OfflineProjectManager'',
      lit ''2. Create or open a project'',
      lit ''3. Add folder: '' @ d,
      lit ''4. Click on each file to test preview'']"

definition written :: "env \<Rightarrow> str \<Rightarrow> (str \<times> str list) list \<Rightarrow> str \<rightharpoonup> node" where
  \<comment> \<open>The files that the blocks of a list of fixtures leave behind.\<close>
  "written env d fxs = map_of (map (\<lambda>fx. (target d fx, stored env fx)) fxs)"

definition console :: "str \<Rightarrow> (str \<times> str list) list \<Rightarrow> str list" where
  \<comment> \<open>All lines of a run that returns.\<close>
  "console d fxs = header_lines d @ map (confirmation d) fxs @ summary_lines d"

definition posix_env :: env where
  \<comment> \<open>The script started as \<open>python test_preview.py\<close> in
      \<open>/srv/app\<close>; line feed as line separator; no operation is refused.\<close>
  "posix_env =
     \<lparr>script_file = lit ''test_preview.py'', getcwd = lit ''/srv/app'', linesep = [10],
      fault = (\<lambda>c. None)\<rparr>"

definition crlf_env :: env where
  \<comment> \<open>The same, with carriage return and line feed as
      \<open>os.linesep\<close>.\<close>
  "crlf_env = posix_env\<lparr>linesep := [13, 10]\<rparr>"

definition fresh_world :: world where
  \<comment> \<open>A file system that holds the directory of the script and nothing of the
      output; an empty console.\<close>
  "fresh_world =
     \<lparr>fs = [lit ''/'' \<mapsto> Dir, lit ''/srv'' \<mapsto> Dir, lit ''/srv/app'' \<mapsto> Dir], stdout = []\<rparr>"

definition is_confirmation :: "str \<Rightarrow> bool" where
  \<comment> \<open>A line that starts with the check mark and \<open>Created:\<close>.\<close>
  "is_confirmation l = (take (length created) l = created)"

definition denied_env :: env where
  \<comment> \<open>The operating system refuses every \<open>mkdir\<close> with EACCES.\<close>
  "denied_env = posix_env\<lparr>fault := (\<lambda>c. case c of Mkdir p \<Rightarrow> Some EACCES | _ \<Rightarrow> None)\<rparr>"

definition locked_env :: env where
  \<comment> \<open>The operating system refuses to open \<open>sample.json\<close> in the
      output directory.\<close>
  "locked_env =
     posix_env\<lparr>fault :=
       (\<lambda>c. if c = Open (lit ''/srv/app/test_preview_files/sample.json'') then Some EACCES
            else None)\<rparr>"

definition stale_world :: world where
  \<comment> \<open>The output directory is there already, with an old
      \<open>sample.csv\<close> holding the bytes of \<open>old\<close>.\<close>
  "stale_world =
     \<lparr>fs = (fs fresh_world)
             (lit ''/srv/app/test_preview_files'' \<mapsto> Dir,
              lit ''/srv/app/test_preview_files/sample.csv'' \<mapsto> File [111, 108, 100]),
      stdout = []\<rparr>"

definition json_first :: "(str \<times> str list) list" where
  \<comment> \<open>The fixtures with the first two exchanged: \<open>sample.json\<close> comes
      first.\<close>
  "json_first = fixtures ! 1 # fixtures ! 0 # drop 2 fixtures"

definition abs_env :: env where
  \<comment> \<open>The same script given by its absolute path and started in another working
      directory.\<close>
  "abs_env =
     \<lparr>script_file = lit ''/srv/app/test_preview.py'', getcwd = lit ''/tmp'', linesep = [10],
      fault = (\<lambda>c. None)\<rparr>"

section \<open>Properties of the library functions and of the script\<close>

subsection \<open>Text and the codec\<close>

lemma lit_eq_iff: "lit a = lit b \<longleftrightarrow> a = b"
  by (simp add: lit_def inj_map_eq_map inj_def)

lemma of_char_less_256: "(of_char c :: nat) < 256"
proof -
  have "(of_char c :: nat) mod 256 = of_char c"
    by (rule of_char_mod_256)
  moreover have "(of_char c :: nat) mod 256 < 256"
    by (rule mod_less_divisor) simp
  ultimately show ?thesis by simp
qed

lemma lit_less_256: "c \<in> set (lit s) \<Longrightarrow> c < 256"
  by (auto simp: lit_def of_char_less_256)

lemma scalar_lit: "list_all scalar (lit s)"
  by (auto simp: list_all_iff scalar_def dest!: lit_less_256)

lemma encode_utf8_examples:
  "encode_utf8 [0x2705] = Some [0xE2, 0x9C, 0x85]"
  "encode_utf8 [0x1F389] = Some [0xF0, 0x9F, 0x8E, 0x89]"
  "encode_utf8 (lit ''A'') = Some [0x41]"
  "encode_utf8 [0xD800] = None"
  by (simp_all add: utf8_codepoint_def lit_def)

lemma encode_utf8_append:
  "encode_utf8 (a @ b) =
     (case encode_utf8 a of
        None \<Rightarrow> None
      | Some x \<Rightarrow> (case encode_utf8 b of None \<Rightarrow> None | Some y \<Rightarrow> Some (x @ y)))"
  by (induction a) (auto split: option.splits)

lemma utf8_codepoint_None_iff: "utf8_codepoint c = None \<longleftrightarrow> \<not> scalar c"
  by (auto simp: utf8_codepoint_def scalar_def)

lemma encode_utf8_Cons_None_iff:
  "encode_utf8 (c # cs) = None \<longleftrightarrow> utf8_codepoint c = None \<or> encode_utf8 cs = None"
  by (simp split: option.splits)

lemma encode_utf8_None_iff: "encode_utf8 s = None \<longleftrightarrow> \<not> list_all scalar s"
proof (induction s)
  case Nil
  show ?case by simp
next
  case (Cons c cs)
  show ?case
    unfolding encode_utf8_Cons_None_iff utf8_codepoint_None_iff Cons.IH by simp
qed

lemma translate_newlines_append:
  "translate_newlines ls (a @ b) = translate_newlines ls a @ translate_newlines ls b"
  by (simp add: translate_newlines_def)

lemma translate_newlines_lf: "translate_newlines [10] s = s"
  by (induction s) (auto simp: translate_newlines_def)

lemma encode_text_append:
  "encode_text env (a @ b) =
     (case encode_text env a of
        None \<Rightarrow> None
      | Some x \<Rightarrow> (case encode_text env b of None \<Rightarrow> None | Some y \<Rightarrow> Some (x @ y)))"
  unfolding encode_text_def
  by (simp add: translate_newlines_append encode_utf8_append)

lemma encode_text_None_iff:
  "list_all scalar (linesep env) \<Longrightarrow> encode_text env s = None \<longleftrightarrow> \<not> list_all scalar s"
  by (simp add: encode_text_def encode_utf8_None_iff)
     (induction s; auto simp: translate_newlines_def scalar_def)

subsection \<open>Paths\<close>

lemma not_isabs_no_sep: "sep \<notin> set n \<Longrightarrow> \<not> isabs n"
  by (cases n) (auto simp: isabs_def)

lemma os_path_join_rel:
  "\<not> isabs n \<Longrightarrow>
     os_path_join d n = (if d = [] \<or> endswith_sep d then d @ n else d @ sep # n)"
  by (simp add: os_path_join_def)

lemma dirlike_dirname: "dirlike (os_path_dirname p)"
proof -
  let ?h = "rev (dropWhile (\<lambda>c. c \<noteq> sep) (rev p))"
  show ?thesis
  proof (cases "?h \<noteq> [] \<and> \<not> list_all (\<lambda>c. c = sep) ?h")
    case True
    then have d: "os_path_dirname p = rstrip_sep ?h"
      by (simp add: os_path_dirname_def os_path_split_def Let_def)
    show ?thesis
    proof (cases "rstrip_sep ?h = []")
      case True
      with d show ?thesis by (simp add: dirlike_def)
    next
      case False
      then have ne: "dropWhile (\<lambda>c. c = sep) (rev ?h) \<noteq> []"
        by (simp add: rstrip_sep_def)
      have "hd (dropWhile (\<lambda>c. c = sep) (rev ?h)) \<noteq> sep"
        using hd_dropWhile [OF ne] by simp
      with ne have "last (rstrip_sep ?h) \<noteq> sep"
        by (simp add: rstrip_sep_def last_rev)
      with d show ?thesis by (simp add: dirlike_def)
    qed
  next
    case False
    then have "os_path_dirname p = ?h"
      by (auto simp: os_path_dirname_def os_path_split_def Let_def)
    with False show ?thesis by (auto simp: dirlike_def)
  qed
qed

lemma os_path_split_join:
  assumes d: "dirlike d" and n: "sep \<notin> set n"
  shows "os_path_split (os_path_join d n) = (d, n)"
proof -
  have nabs: "\<not> isabs n" using n by (rule not_isabs_no_sep)
  have tw: "takeWhile (\<lambda>c. c \<noteq> sep) (rev n @ ys) = rev n @ takeWhile (\<lambda>c. c \<noteq> sep) ys" for ys
    using n by (intro takeWhile_append2) auto
  have dw: "dropWhile (\<lambda>c. c \<noteq> sep) (rev n @ ys) = dropWhile (\<lambda>c. c \<noteq> sep) ys" for ys
    using n by (intro dropWhile_append2) auto
  consider (empty) "d = []" | (slashes) "d \<noteq> []" "list_all (\<lambda>c. c = sep) d"
    | (name) "d \<noteq> []" "\<not> list_all (\<lambda>c. c = sep) d" "last d \<noteq> sep"
    using d by (auto simp: dirlike_def)
  then show ?thesis
  proof cases
    case empty
    then have j: "os_path_join d n = n" using nabs by (simp add: os_path_join_rel)
    have t: "takeWhile (\<lambda>c. c \<noteq> sep) (rev n) = rev n"
      using n by (auto simp: takeWhile_eq_all_conv)
    have dr: "dropWhile (\<lambda>c. c \<noteq> sep) (rev n) = []"
      using n by auto
    have "os_path_split n = ([], n)"
      unfolding os_path_split_def Let_def t dr by simp
    with j have "os_path_split (os_path_join d n) = ([], n)"
      by simp
    then show ?thesis using empty by simp
  next
    case slashes
    then have l: "last d = sep"
      by (metis (mono_tags, lifting) last_in_set list_all_iff)
    with slashes have j: "os_path_join d n = d @ n"
      using nabs by (simp add: os_path_join_rel endswith_sep_def)
    from slashes have hd: "hd (rev d) = sep" "rev d \<noteq> []"
      using l by (simp_all add: hd_rev)
    then have dd: "dropWhile (\<lambda>c. c \<noteq> sep) (rev d) = rev d"
      by (cases "rev d") auto
    from hd have td: "takeWhile (\<lambda>c. c \<noteq> sep) (rev d) = []"
      by (cases "rev d") auto
    show ?thesis
      using slashes by (simp add: j os_path_split_def Let_def tw dw dd td)
  next
    case name
    then have j: "os_path_join d n = d @ sep # n"
      using nabs by (simp add: os_path_join_rel endswith_sep_def)
    have dwr: "dropWhile (\<lambda>c. c \<noteq> sep) (rev (d @ sep # n)) = sep # rev d"
      using dw [of "sep # rev d"] by simp
    have twr: "takeWhile (\<lambda>c. c \<noteq> sep) (rev (d @ sep # n)) = rev n"
      using tw [of "sep # rev d"] by simp
    from name have hd: "hd (rev d) \<noteq> sep" "rev d \<noteq> []"
      by (simp_all add: hd_rev)
    then have strip: "dropWhile (\<lambda>c. c = sep) (rev d) = rev d"
      by (cases "rev d") auto
    have "os_path_split (d @ sep # n) = (d, n)"
      unfolding os_path_split_def Let_def dwr twr
      using name by (simp add: rstrip_sep_def strip)
    with j show ?thesis by simp
  qed
qed

lemma isabs_join: "isabs d \<Longrightarrow> isabs (os_path_join d n)"
  by (cases d) (auto simp: os_path_join_def isabs_def)

lemma isabs_normpath: "isabs p \<Longrightarrow> isabs (os_path_normpath p)"
proof -
  assume a: "isabs p"
  then have ne: "p \<noteq> []" by (auto simp: isabs_def)
  from a have "initial_slashes p = Suc 0 \<or> initial_slashes p = Suc (Suc 0)"
    by (simp add: initial_slashes_def)
  then show ?thesis
    using ne by (auto simp: os_path_normpath_def Let_def isabs_def)
qed

lemma isabs_dirname: "isabs p \<Longrightarrow> isabs (os_path_dirname p)"
proof -
  assume "isabs p"
  then obtain r where p: "p = sep # r" by (cases p) (auto simp: isabs_def)
  let ?P = "\<lambda>c. c \<noteq> sep"
  let ?Q = "\<lambda>c. c = sep"
  have "\<exists>zs. dropWhile ?P (rev r @ [sep]) = zs @ [sep]"
    by (induction "rev r") (auto simp: dropWhile_append)
  then obtain zs where zs: "dropWhile ?P (rev p) = zs @ [sep]"
    using p by auto
  then have h: "rev (dropWhile ?P (rev p)) = sep # rev zs" by simp
  show ?thesis
  proof (cases "list_all ?Q (sep # rev zs)")
    case True
    then show ?thesis
      by (simp add: os_path_dirname_def os_path_split_def Let_def h isabs_def)
  next
    case False
    then obtain x where x: "x \<in> set zs" "x \<noteq> sep" by (auto simp: list_all_iff)
    then have "dropWhile ?Q (zs @ [sep]) = dropWhile ?Q zs @ [sep]"
      by (intro dropWhile_append1) auto
    then have "rstrip_sep (sep # rev zs) = sep # rev (dropWhile ?Q zs)"
      by (simp add: rstrip_sep_def)
    with False show ?thesis
      by (simp add: os_path_dirname_def os_path_split_def Let_def h isabs_def)
  qed
qed

subsection \<open>Making directories\<close>

lemma grows_refl: "grows n w w"
  by (simp add: grows_def)

lemma grows_trans: "grows n w w0 \<Longrightarrow> grows m w0 w1 \<Longrightarrow> n \<le> m \<Longrightarrow> grows m w w1"
  unfolding grows_def
  by (metis le_trans)

lemma grows_mono: "grows n w w1 \<Longrightarrow> n \<le> m \<Longrightarrow> grows m w w1"
  unfolding grows_def by (metis le_trans)

lemma os_mkdir_cases:
  assumes "os_mkdir env p w = (r, w1)"
  shows "(r = Inr () \<and> fs w p = None \<and> fs w (os_path_dirname p) = Some Dir
            \<and> fault env (Mkdir p) = None \<and> w1 = w\<lparr>fs := (fs w)(p \<mapsto> Dir)\<rparr>)
         \<or> ((\<exists>e. r = Inl e) \<and> w1 = w)"
  using assms
  by (auto simp: os_mkdir_def split: option.splits node.splits if_splits)

lemma mkdir_exist_ok_grows:
  "mkdir_exist_ok env name ok w = (r, w1) \<Longrightarrow> grows (length name) w w1"
  by (auto simp: mkdir_exist_ok_def grows_def split: prod.splits sum.splits if_splits
      dest!: os_mkdir_cases)

lemma mkdir_exist_ok_Dir:
  "mkdir_exist_ok env name True w = (Inr u, w1) \<Longrightarrow> fs w1 name = Some Dir"
  by (auto simp: mkdir_exist_ok_def split: prod.splits sum.splits if_splits
      dest!: os_mkdir_cases)

lemma mkdir_exist_ok_raises:
  "mkdir_exist_ok env name True w = (Inl e, w1) \<Longrightarrow> w1 = w \<and> fs w name \<noteq> Some Dir"
  by (auto simp: mkdir_exist_ok_def split: prod.splits sum.splits if_splits
      dest!: os_mkdir_cases)

lemma mkdir_exist_ok_existing:
  "fs w name = Some Dir \<Longrightarrow> mkdir_exist_ok env name True w = (Inr (), w)"
  by (auto simp: mkdir_exist_ok_def os_mkdir_def split: prod.splits sum.splits option.splits)

lemma mkdir_exist_ok_new:
  "mkdir_exist_ok env name True w = (Inr u, w1) \<Longrightarrow> fs w name = None \<Longrightarrow>
     fs w (os_path_dirname name) = Some Dir \<and> w1 = w\<lparr>fs := (fs w)(name \<mapsto> Dir)\<rparr>"
  by (auto simp: mkdir_exist_ok_def split: prod.splits sum.splits if_splits
      dest!: os_mkdir_cases)

lemma os_makedirs_grows:
  "os_makedirs env name ok w = (r, w1) \<Longrightarrow> grows (length name) w w1"
proof (induction env name ok w arbitrary: r w1 rule: os_makedirs.induct)
  case (1 env name exist_ok w)
  let ?head = "fst (makedirs_split name)"
  let ?tail = "snd (makedirs_split name)"
  show ?case
  proof (cases "?head \<noteq> [] \<and> ?tail \<noteq> [] \<and> fs w ?head = None")
    case True
    obtain r0 w0 where rec: "os_makedirs env ?head exist_ok w = (r0, w0)"
      by (cases "os_makedirs env ?head exist_ok w")
    from True have len: "length ?head \<le> length name"
      using length_makedirs_split [of name] by simp
    have g0: "grows (length name) w w0"
      using "1.IH" [OF True rec] len by (rule grows_mono)
    have "grows (length name) w0 w1"
      using "1.prems" True rec
      by (subst (asm) os_makedirs.simps)
         (auto simp: grows_refl split: sum.splits if_splits dest: mkdir_exist_ok_grows)
    with g0 show ?thesis by (rule grows_trans) simp
  next
    case False
    then have "mkdir_exist_ok env name exist_ok w = (r, w1)"
      using "1.prems" by (subst (asm) os_makedirs.simps) auto
    then show ?thesis by (rule mkdir_exist_ok_grows)
  qed
qed

lemma os_makedirs_existing:
  assumes "fs w name = Some Dir"
    and "fst (makedirs_split name) = [] \<or> fs w (fst (makedirs_split name)) \<noteq> None"
  shows "os_makedirs env name True w = (Inr (), w)"
  using assms by (subst os_makedirs.simps) (auto simp: mkdir_exist_ok_existing)

lemma os_makedirs_Dir:
  assumes "os_makedirs env name True w = (Inr u, w1)"
    and "snd (makedirs_split name) \<noteq> curdir"
  shows "fs w1 name = Some Dir"
  using assms
  by (subst (asm) os_makedirs.simps)
     (auto split: if_splits prod.splits sum.splits dest: mkdir_exist_ok_Dir)

lemma os_makedirs_parent:
  assumes ok: "os_makedirs env name True w = (Inr u, w1)"
    and tail: "snd (os_path_split name) \<noteq> []"
    and nodot: "snd (os_path_split name) \<noteq> curdir"
    and wf: "fs w name \<noteq> None \<longrightarrow> fs w (os_path_dirname name) \<noteq> None"
  shows "os_path_dirname name = [] \<or> fs w1 (os_path_dirname name) \<noteq> None"
proof -
  let ?head = "os_path_dirname name"
  have ms: "makedirs_split name = os_path_split name"
    using tail by (simp add: makedirs_split_def)
  then have h: "fst (makedirs_split name) = ?head" and t: "snd (makedirs_split name) \<noteq> []"
    using tail by (simp_all add: os_path_dirname_def)
  have g: "grows (length name) w w1"
    using ok by (rule os_makedirs_grows)
  show ?thesis
  proof (cases "?head \<noteq> [] \<and> fs w ?head = None")
    case False
    then show ?thesis using g unfolding grows_def by (metis option.distinct(1))
  next
    case True
    then have absent: "fs w name = None" using wf by auto
    obtain r0 w0 where rec: "os_makedirs env ?head True w = (r0, w0)"
      by (cases "os_makedirs env ?head True w")
    have lt: "length ?head < length name"
      using length_makedirs_split [of name] t h by simp
    have g0: "grows (length ?head) w w0"
      using rec by (rule os_makedirs_grows)
    then have absent0: "fs w0 name = None"
      using absent lt unfolding grows_def by (metis not_le)
    have "mkdir_exist_ok env name True w0 = (Inr u, w1)"
      using ok True rec h t nodot ms
      by (subst (asm) os_makedirs.simps) (auto split: sum.splits if_splits)
    from mkdir_exist_ok_new [OF this absent0] show ?thesis by simp
  qed
qed

lemma os_makedirs_raises:
  assumes bad: "os_makedirs env name True w = (Inl e, w1)"
    and tail: "snd (os_path_split name) \<noteq> []"
    and wf: "fs w name \<noteq> None \<longrightarrow> fs w (os_path_dirname name) \<noteq> None"
  shows "fs w1 name \<noteq> Some Dir"
proof -
  let ?head = "os_path_dirname name"
  have ms: "makedirs_split name = os_path_split name"
    using tail by (simp add: makedirs_split_def)
  then have h: "fst (makedirs_split name) = ?head" and t: "snd (makedirs_split name) \<noteq> []"
    using tail by (simp_all add: os_path_dirname_def)
  show ?thesis
  proof (cases "?head \<noteq> [] \<and> fs w ?head = None")
    case False
    then have "mkdir_exist_ok env name True w = (Inl e, w1)"
      using bad h t by (subst (asm) os_makedirs.simps) auto
    then show ?thesis by (auto dest: mkdir_exist_ok_raises)
  next
    case True
    then have absent: "fs w name = None" using wf by auto
    obtain r0 w0 where rec: "os_makedirs env ?head True w = (r0, w0)"
      by (cases "os_makedirs env ?head True w")
    have lt: "length ?head < length name"
      using length_makedirs_split [of name] t h by simp
    have g0: "grows (length ?head) w w0"
      using rec by (rule os_makedirs_grows)
    then have absent0: "fs w0 name = None"
      using absent lt unfolding grows_def by (metis not_le)
    have "(r0 = Inl e \<and> w1 = w0) \<or> mkdir_exist_ok env name True w0 = (Inl e, w1)"
      using bad True rec h t
      by (subst (asm) os_makedirs.simps) (auto split: sum.splits if_splits)
    then show ?thesis
      using absent0 by (auto dest: mkdir_exist_ok_raises)
  qed
qed

subsection \<open>Writing the files\<close>

lemma seq_append:
  "seq (as @ bs) w = (case seq as w of (Inl e, w1) \<Rightarrow> (Inl e, w1) | (Inr u, w1) \<Rightarrow> seq bs w1)"
  by (induction as arbitrary: w) (auto split: prod.splits sum.splits)

lemma encode_text_Nil: "encode_text env [] = Some []"
  by (simp add: encode_text_def translate_newlines_def)

lemma writes_ok_encodes:
  "writes_ok env p chunks \<Longrightarrow> \<exists>bs. encode_text env (concat chunks) = Some bs"
  by (induction chunks)
     (auto simp: writes_ok_def encode_text_append encode_text_Nil split: option.splits)

lemma seq_f_write_ok:
  "fs w p = Some (File old) \<Longrightarrow> writes_ok env p chunks \<Longrightarrow>
     seq (map (f_write env p) chunks) w =
       (Inr (), w\<lparr>fs := (fs w)(p \<mapsto> File (old @ the (encode_text env (concat chunks))))\<rparr>)"
proof (induction chunks arbitrary: w old)
  case Nil
  then have "(fs w)(p \<mapsto> File old) = fs w" by (simp add: map_upd_triv)
  then show ?case by (simp add: encode_text_Nil)
next
  case (Cons c cs)
  from Cons.prems(2) obtain b where b: "encode_text env c = Some b" "fault env (Write p b) = None"
    and rest: "writes_ok env p cs"
    by (auto simp: writes_ok_def split: option.splits)
  from writes_ok_encodes [OF rest] obtain bs where bs: "encode_text env (concat cs) = Some bs"
    by blast
  let ?w1 = "w\<lparr>fs := (fs w)(p \<mapsto> File (old @ b))\<rparr>"
  have step: "f_write env p c w = (Inr (), ?w1)"
    using b Cons.prems(1) by (simp add: f_write_def encode_text_def)
  have "fs ?w1 p = Some (File (old @ b))" by simp
  from Cons.IH [OF this rest]
  have "seq (map (f_write env p) cs) ?w1 =
          (Inr (), ?w1\<lparr>fs := (fs ?w1)(p \<mapsto> File ((old @ b) @ the (encode_text env (concat cs))))\<rparr>)" .
  then show ?case
    using step b bs by (simp add: encode_text_append) (simp add: fun_upd_def)
qed

lemma f_write_frame:
  "f_write env p c w = (r, w1) \<Longrightarrow> stdout w1 = stdout w \<and> (\<forall>q. q \<noteq> p \<longrightarrow> fs w1 q = fs w q)"
  by (auto simp: f_write_def split: option.splits node.splits)

lemma seq_f_write_frame:
  "seq (map (f_write env p) chunks) w = (r, w1) \<Longrightarrow>
     stdout w1 = stdout w \<and> (\<forall>q. q \<noteq> p \<longrightarrow> fs w1 q = fs w q)"
proof (induction chunks arbitrary: w)
  case Nil
  then show ?case by simp
next
  case (Cons c cs)
  obtain r0 w0 where s: "f_write env p c w = (r0, w0)" by (cases "f_write env p c w")
  show ?case
  proof (cases r0)
    case (Inl e)
    with Cons.prems s show ?thesis using f_write_frame [OF s] by simp
  next
    case (Inr u)
    with Cons.prems s have "seq (map (f_write env p) cs) w0 = (r, w1)" by simp
    from Cons.IH [OF this] f_write_frame [OF s] show ?thesis by simp
  qed
qed

lemma seq_f_write_fails:
  "fs w p = Some (File old) \<Longrightarrow> \<not> writes_ok env p chunks \<Longrightarrow>
     \<exists>e w1. seq (map (f_write env p) chunks) w = (Inl e, w1)"
proof (induction chunks arbitrary: w old)
  case Nil
  then show ?case by (simp add: writes_ok_def)
next
  case (Cons c cs)
  show ?case
  proof (cases "case encode_text env c of None \<Rightarrow> False | Some b \<Rightarrow> fault env (Write p b) = None")
    case False
    then show ?thesis
      by (auto simp: f_write_def encode_text_def split: option.splits)
  next
    case True
    then obtain b where b: "encode_text env c = Some b" "fault env (Write p b) = None"
      by (auto split: option.splits)
    let ?w1 = "w\<lparr>fs := (fs w)(p \<mapsto> File (old @ b))\<rparr>"
    have step: "f_write env p c w = (Inr (), ?w1)"
      using b Cons.prems(1) by (simp add: f_write_def encode_text_def)
    have rest: "\<not> writes_ok env p cs"
      using Cons.prems(2) True by (auto simp: writes_ok_def)
    have "fs ?w1 p = Some (File (old @ b))" by simp
    from Cons.IH [OF this rest] show ?thesis using step by simp
  qed
qed

lemma open_w_ok:
  "open_ok env w p \<Longrightarrow> open_w env p w = (Inr (), w\<lparr>fs := (fs w)(p \<mapsto> File [])\<rparr>)"
  by (auto simp: open_ok_def open_w_def split: option.splits node.splits)

lemma open_w_fails:
  "\<not> open_ok env w p \<Longrightarrow> \<exists>e. open_w env p w = (Inl e, w)"
  by (auto simp: open_ok_def open_w_def split: option.splits node.splits)

lemma open_w_frame:
  "open_w env p w = (r, w1) \<Longrightarrow> stdout w1 = stdout w \<and> (\<forall>q. q \<noteq> p \<longrightarrow> fs w1 q = fs w q)"
  by (auto simp: open_w_def split: option.splits node.splits)

lemma write_file_ok:
  assumes "file_ok env d w fx"
  shows "write_file env d fx w = (Inr (), w\<lparr>fs := (fs w)(target d fx \<mapsto> stored env fx)\<rparr>)"
proof -
  let ?p = "target d fx"
  let ?w0 = "w\<lparr>fs := (fs w)(?p \<mapsto> File [])\<rparr>"
  from assms have o: "open_w env ?p w = (Inr (), ?w0)" and wr: "writes_ok env ?p (snd fx)"
    by (simp_all add: file_ok_def open_w_ok)
  have "fs ?w0 ?p = Some (File [])" by simp
  from seq_f_write_ok [OF this wr] o show ?thesis
    by (simp add: write_file_def with_open_w_def stored_def literal_def)
qed

lemma write_file_fails:
  assumes "\<not> file_ok env d w fx"
  shows "\<exists>e w1. write_file env d fx w = (Inl e, w1)"
proof (cases "open_ok env w (target d fx)")
  case False
  from open_w_fails [OF this] show ?thesis
    by (auto simp: write_file_def with_open_w_def)
next
  case True
  let ?p = "target d fx"
  let ?w0 = "w\<lparr>fs := (fs w)(?p \<mapsto> File [])\<rparr>"
  from True have o: "open_w env ?p w = (Inr (), ?w0)" by (rule open_w_ok)
  from True assms have wr: "\<not> writes_ok env ?p (snd fx)" by (simp add: file_ok_def)
  have "fs ?w0 ?p = Some (File [])" by simp
  from seq_f_write_fails [OF this wr] o show ?thesis
    by (auto simp: write_file_def with_open_w_def)
qed

lemma write_file_frame:
  assumes "write_file env d fx w = (r, w1)"
  shows "stdout w1 = stdout w \<and> (\<forall>q. q \<noteq> target d fx \<longrightarrow> fs w1 q = fs w q)"
proof -
  obtain r0 w0 where o: "open_w env (target d fx) w = (r0, w0)"
    by (cases "open_w env (target d fx) w")
  show ?thesis
  proof (cases r0)
    case (Inl e)
    with assms o open_w_frame [OF o] show ?thesis
      by (simp add: write_file_def with_open_w_def)
  next
    case (Inr u)
    with assms o have "seq (map (f_write env (target d fx)) (snd fx)) w0 = (r, w1)"
      by (simp add: write_file_def with_open_w_def)
    from seq_f_write_frame [OF this] open_w_frame [OF o] show ?thesis by simp
  qed
qed

lemma file_ok_cong:
  "fs w' (target d fx) = fs w (target d fx) \<Longrightarrow>
   fs w' (os_path_dirname (target d fx)) = fs w (os_path_dirname (target d fx)) \<Longrightarrow>
   file_ok env d w' fx = file_ok env d w fx"
  by (auto simp: file_ok_def open_ok_def split: option.splits node.splits)

lemma layout_Cons: "layout d (fx # fxs) \<Longrightarrow> layout d fxs"
  by (simp add: layout_def)

lemma layout_target:
  assumes "layout d fxs" and "fx \<in> set fxs"
  shows "os_path_split (target d fx) = (d, fst fx)" and "target d fx \<noteq> d"
proof -
  from assms have dl: "dirlike d" and n: "sep \<notin> set (fst fx)" and ne: "fst fx \<noteq> []"
    by (auto simp: layout_def)
  show "os_path_split (target d fx) = (d, fst fx)"
    unfolding target_def using dl n by (rule os_path_split_join)
  have "length d < length (target d fx)"
    using ne not_isabs_no_sep [OF n] by (simp add: target_def os_path_join_rel)
  then show "target d fx \<noteq> d" by auto
qed

lemma layout_dirname:
  "layout d fxs \<Longrightarrow> fx \<in> set fxs \<Longrightarrow> os_path_dirname (target d fx) = d"
  by (simp add: os_path_dirname_def layout_target)

lemma layout_target_inj:
  assumes "layout d fxs" and "fx \<in> set fxs" and "fy \<in> set fxs"
    and "target d fx = target d fy"
  shows "fst fx = fst fy"
  using layout_target(1) [OF assms(1,2)] layout_target(1) [OF assms(1,3)] assms(4) by simp

lemma layout_distinct: "layout d fxs \<Longrightarrow> distinct (map (target d) fxs)"
proof (induction fxs)
  case Nil
  show ?case by simp
next
  case (Cons fx fxs)
  have "target d fx \<notin> target d ` set fxs"
  proof
    assume "target d fx \<in> target d ` set fxs"
    then obtain fy where fy: "fy \<in> set fxs" "target d fx = target d fy" by auto
    with layout_target_inj [OF Cons.prems, of fx fy] have "fst fx = fst fy" by simp
    with fy(1) Cons.prems show False by (force simp: layout_def)
  qed
  with Cons.IH [OF layout_Cons [OF Cons.prems]] show ?case by simp
qed

lemma map_add_upd_left: "t \<notin> dom m \<Longrightarrow> f(t \<mapsto> v) ++ m = f ++ m(t \<mapsto> v)"
  by (rule ext) (auto simp: map_add_def split: option.splits)

lemma dom_written: "dom (written env d fxs) = target d ` set fxs"
  by (simp add: written_def dom_map_of_conv_image_fst image_image)

lemma written_Cons:
  "written env d (fx # fxs) = (written env d fxs)(target d fx \<mapsto> stored env fx)"
  by (simp add: written_def)

lemma report_eq: "report d fx w = (Inr (), w\<lparr>stdout := stdout w @ confirmation d fx @ [10]\<rparr>)"
  by (simp add: report_def print_def confirmation_def)

lemma write_all_Nil: "write_all env d [] w = (Inr (), w)"
  by (simp add: write_all_def)

lemma write_all_Cons:
  "write_all env d (fx # fxs) w =
     (case write_file env d fx w of
        (Inl e, w1) \<Rightarrow> (Inl e, w1)
      | (Inr u, w1) \<Rightarrow> write_all env d fxs (w1\<lparr>stdout := stdout w1 @ confirmation d fx @ [10]\<rparr>))"
  by (simp add: write_all_def fixture_block_def report_eq split: prod.splits sum.splits)

lemma write_all_ok:
  "layout d fxs \<Longrightarrow> \<forall>fx \<in> set fxs. file_ok env d w fx \<Longrightarrow>
     write_all env d fxs w =
       (Inr (), w\<lparr>fs := fs w ++ written env d fxs,
                  stdout := stdout w @ unlines (map (confirmation d) fxs)\<rparr>)"
proof (induction fxs arbitrary: w)
  case Nil
  show ?case by (simp add: write_all_Nil written_def unlines_def)
next
  case (Cons fx fxs)
  let ?t = "target d fx"
  let ?w1 = "w\<lparr>fs := (fs w)(?t \<mapsto> stored env fx)\<rparr>"
  let ?w2 = "?w1\<lparr>stdout := stdout ?w1 @ confirmation d fx @ [10]\<rparr>"
  have lay: "layout d fxs" using Cons.prems(1) by (rule layout_Cons)
  have first: "write_file env d fx w = (Inr (), ?w1)"
    using Cons.prems(2) by (simp add: write_file_ok)
  have dist: "?t \<notin> target d ` set fxs"
    using layout_distinct [OF Cons.prems(1)] by simp
  have later: "\<forall>fy \<in> set fxs. file_ok env d ?w2 fy"
  proof
    fix fy assume fy: "fy \<in> set fxs"
    then have mem: "fy \<in> set (fx # fxs)" by simp
    have a: "target d fy \<noteq> ?t" using dist fy by (metis imageI)
    have b: "os_path_dirname (target d fy) \<noteq> ?t"
      using layout_dirname [OF Cons.prems(1) mem] layout_target(2) [OF Cons.prems(1), of fx]
      by auto
    have "file_ok env d ?w2 fy = file_ok env d w fy"
      by (rule file_ok_cong) (simp_all add: a b)
    with Cons.prems(2) fy show "file_ok env d ?w2 fy" by simp
  qed
  have "?t \<notin> dom (written env d fxs)" using dist by (simp add: dom_written)
  then have m: "(fs w)(?t \<mapsto> stored env fx) ++ written env d fxs = fs w ++ written env d (fx # fxs)"
    by (simp add: map_add_upd_left written_Cons)
  have fs2: "fs ?w2 = (fs w)(?t \<mapsto> stored env fx)" and out2: "stdout ?w2 = stdout w @ confirmation d fx @ [10]"
    by simp_all
  have "write_all env d (fx # fxs) w = write_all env d fxs ?w2"
    using first by (simp add: write_all_Cons)
  also have "\<dots> = (Inr (), ?w2\<lparr>fs := fs ?w2 ++ written env d fxs,
                  stdout := stdout ?w2 @ unlines (map (confirmation d) fxs)\<rparr>)"
    by (rule Cons.IH [OF lay later])
  also have "?w2\<lparr>fs := fs ?w2 ++ written env d fxs,
                  stdout := stdout ?w2 @ unlines (map (confirmation d) fxs)\<rparr>
             = w\<lparr>fs := fs w ++ written env d (fx # fxs),
                  stdout := stdout w @ unlines (map (confirmation d) (fx # fxs))\<rparr>"
    unfolding fs2 out2 m by (simp add: unlines_def)
  finally show ?case .
qed

lemma write_all_fails:
  "layout d fxs \<Longrightarrow> \<not> (\<forall>fx \<in> set fxs. file_ok env d w fx) \<Longrightarrow>
     \<exists>e w1. write_all env d fxs w = (Inl e, w1)"
proof (induction fxs arbitrary: w)
  case Nil
  then show ?case by simp
next
  case (Cons fx fxs)
  show ?case
  proof (cases "file_ok env d w fx")
    case False
    from write_file_fails [OF this] show ?thesis
      by (auto simp: write_all_Cons)
  next
    case True
    let ?t = "target d fx"
    let ?w1 = "w\<lparr>fs := (fs w)(?t \<mapsto> stored env fx)\<rparr>"
    let ?w2 = "?w1\<lparr>stdout := stdout ?w1 @ confirmation d fx @ [10]\<rparr>"
    have lay: "layout d fxs" using Cons.prems(1) by (rule layout_Cons)
    have first: "write_file env d fx w = (Inr (), ?w1)"
      using True by (simp add: write_file_ok)
    have dist: "?t \<notin> target d ` set fxs"
      using layout_distinct [OF Cons.prems(1)] by simp
    have same: "file_ok env d ?w2 fy = file_ok env d w fy" if fy: "fy \<in> set fxs" for fy
    proof -
      from fy have mem: "fy \<in> set (fx # fxs)" by simp
      have a: "target d fy \<noteq> ?t" using dist fy by (metis imageI)
      have b: "os_path_dirname (target d fy) \<noteq> ?t"
        using layout_dirname [OF Cons.prems(1) mem] layout_target(2) [OF Cons.prems(1), of fx]
        by auto
      show ?thesis by (rule file_ok_cong) (simp_all add: a b)
    qed
    from Cons.prems(2) True have "\<not> (\<forall>fy \<in> set fxs. file_ok env d w fy)" by simp
    with same have "\<not> (\<forall>fy \<in> set fxs. file_ok env d ?w2 fy)" by blast
    from Cons.IH [OF lay this] first show ?thesis
      by (simp add: write_all_Cons)
  qed
qed

subsection \<open>The run as a whole\<close>

lemma create_test_directory_statements:
  "create_test_directory env w = returning (test_dir env) (seq (statements env fixtures) w)"
  by (simp add: create_test_directory_def statements_def test_dir_def header_def summary_def
      fixtures_def fixture_block_def write_file_def report_def target_def Let_def)

lemma unlines_append: "unlines (a @ b) = unlines a @ unlines b"
  by (simp add: unlines_def)

lemma seq_header: "seq (header d) w = (Inr (), w\<lparr>stdout := stdout w @ unlines (header_lines d)\<rparr>)"
  by (simp add: header_def header_lines_def print_def unlines_def)

lemma seq_summary:
  "seq (summary d) w = (Inr (), w\<lparr>stdout := stdout w @ unlines (summary_lines d)\<rparr>)"
  by (simp add: summary_def summary_lines_def print_def unlines_def)

lemma no_sep_test_preview_files: "sep \<notin> set (lit ''test_preview_files'')"
  by (simp add: lit_def sep_def)

lemma split_test_dir:
  "os_path_split (test_dir env) =
     (os_path_dirname (os_path_abspath env (script_file env)), lit ''test_preview_files'')"
  unfolding test_dir_def
  by (rule os_path_split_join [OF dirlike_dirname no_sep_test_preview_files])

lemma dirlike_test_dir: "dirlike (test_dir env)"
proof -
  have "\<not> isabs (lit ''test_preview_files'')"
    by (rule not_isabs_no_sep [OF no_sep_test_preview_files])
  then have "last (test_dir env) = last (lit ''test_preview_files'')"
    by (simp add: test_dir_def os_path_join_rel lit_def)
  then have "last (test_dir env) \<noteq> sep"
    by (simp add: lit_def sep_def)
  then show ?thesis by (simp add: dirlike_def)
qed

lemma layout_fixtures: "layout (test_dir env) fixtures"
proof -
  have "distinct (map fst fixtures)"
    by (simp add: fixtures_def lit_eq_iff)
  moreover have "\<forall>fx \<in> set fixtures. fst fx \<noteq> [] \<and> sep \<notin> set (fst fx)"
    by (simp add: fixtures_def lit_def sep_def)
  ultimately show ?thesis
    using dirlike_test_dir by (simp add: layout_def)
qed

lemma statements_run:
  "seq (statements env fxs) w =
     (case os_makedirs env (test_dir env) True w of
        (Inl e, w1) \<Rightarrow> (Inl e, w1)
      | (Inr u, w1) \<Rightarrow>
          (case write_all env (test_dir env) fxs
                  (w1\<lparr>stdout := stdout w1 @ unlines (header_lines (test_dir env))\<rparr>) of
             (Inl e, w2) \<Rightarrow> (Inl e, w2)
           | (Inr u, w2) \<Rightarrow>
               (Inr (), w2\<lparr>stdout := stdout w2 @ unlines (summary_lines (test_dir env))\<rparr>)))"
  by (simp add: statements_def seq_append seq_header seq_summary write_all_def
      split: prod.splits sum.splits)

lemma file_ok_header:
  "file_ok env d (w\<lparr>stdout := s\<rparr>) fx = file_ok env d w fx"
  by (rule file_ok_cong) simp_all

lemma run_ok:
  assumes lay: "layout (test_dir env) fxs"
    and mk: "os_makedirs env (test_dir env) True w = (Inr u, w1)"
    and ok: "\<forall>fx \<in> set fxs. file_ok env (test_dir env) w1 fx"
  shows "seq (statements env fxs) w =
           (Inr (), \<lparr>fs = fs w1 ++ written env (test_dir env) fxs,
                     stdout = stdout w @ unlines (console (test_dir env) fxs)\<rparr>)"
proof -
  let ?d = "test_dir env"
  let ?w1h = "w1\<lparr>stdout := stdout w1 @ unlines (header_lines ?d)\<rparr>"
  have out: "stdout w1 = stdout w"
    using os_makedirs_grows [OF mk] by (simp add: grows_def)
  have "\<forall>fx \<in> set fxs. file_ok env ?d ?w1h fx"
    using ok by (simp add: file_ok_header)
  from write_all_ok [OF lay this]
  have wa: "write_all env ?d fxs ?w1h =
      (Inr (), ?w1h\<lparr>fs := fs ?w1h ++ written env ?d fxs,
                  stdout := stdout ?w1h @ unlines (map (confirmation ?d) fxs)\<rparr>)" .
  let ?w2 = "?w1h\<lparr>fs := fs ?w1h ++ written env ?d fxs,
                  stdout := stdout ?w1h @ unlines (map (confirmation ?d) fxs)\<rparr>"
  let ?w3 = "?w2\<lparr>stdout := stdout ?w2 @ unlines (summary_lines ?d)\<rparr>"
  have "seq (statements env fxs) w = (Inr (), ?w3)"
    by (simp add: statements_run mk wa)
  moreover have "?w3 = \<lparr>fs = fs w1 ++ written env ?d fxs,
                     stdout = stdout w @ unlines (console ?d fxs)\<rparr>"
    by (rule world.equality) (simp_all add: out console_def unlines_append)
  ultimately show ?thesis by (simp only:)
qed

lemma run_ok_elim:
  assumes lay: "layout (test_dir env) fxs"
    and run: "seq (statements env fxs) w = (Inr u, w')"
  shows "\<exists>w1. os_makedirs env (test_dir env) True w = (Inr (), w1)
            \<and> (\<forall>fx \<in> set fxs. file_ok env (test_dir env) w1 fx)
            \<and> fs w' = fs w1 ++ written env (test_dir env) fxs
            \<and> stdout w' = stdout w @ unlines (console (test_dir env) fxs)"
proof -
  let ?d = "test_dir env"
  obtain r1 w1 where mk: "os_makedirs env ?d True w = (r1, w1)"
    by (cases "os_makedirs env ?d True w")
  from run mk have r1: "r1 = Inr ()"
    by (cases r1) (simp_all add: statements_run)
  let ?w1h = "w1\<lparr>stdout := stdout w1 @ unlines (header_lines ?d)\<rparr>"
  have ok: "\<forall>fx \<in> set fxs. file_ok env ?d w1 fx"
  proof (rule ccontr)
    assume "\<not> (\<forall>fx \<in> set fxs. file_ok env ?d w1 fx)"
    then have "\<not> (\<forall>fx \<in> set fxs. file_ok env ?d ?w1h fx)"
      by (simp add: file_ok_header)
    from write_all_fails [OF lay this] obtain e w2 where "write_all env ?d fxs ?w1h = (Inl e, w2)"
      by blast
    with run mk r1 show False by (simp add: statements_run)
  qed
  from run_ok [OF lay mk [unfolded r1] ok] run
  have "w' = \<lparr>fs = fs w1 ++ written env ?d fxs, stdout = stdout w @ unlines (console ?d fxs)\<rparr>"
    by simp
  then show ?thesis using mk r1 ok by simp
qed

lemma returning_Inr: "returning v r = (Inr v', w') \<longleftrightarrow> v' = v \<and> r = (Inr (), w')"
  by (cases r) (auto simp: returning_def split: sum.splits)

lemma create_ok:
  assumes "os_makedirs env (test_dir env) True w = (Inr u, w1)"
    and "\<forall>fx \<in> set fixtures. file_ok env (test_dir env) w1 fx"
  shows "create_test_directory env w =
           (Inr (test_dir env), \<lparr>fs = fs w1 ++ written env (test_dir env) fixtures,
                     stdout = stdout w @ unlines (console (test_dir env) fixtures)\<rparr>)"
  using run_ok [OF layout_fixtures assms]
  by (simp add: create_test_directory_statements returning_def)

lemma create_ok_elim:
  assumes "create_test_directory env w = (Inr d, w')"
  shows "d = test_dir env \<and>
         (\<exists>w1. os_makedirs env (test_dir env) True w = (Inr (), w1)
            \<and> (\<forall>fx \<in> set fixtures. file_ok env (test_dir env) w1 fx)
            \<and> fs w' = fs w1 ++ written env (test_dir env) fixtures
            \<and> stdout w' = stdout w @ unlines (console (test_dir env) fixtures))"
proof -
  from assms have d: "d = test_dir env" and run: "seq (statements env fixtures) w = (Inr (), w')"
    by (simp_all add: create_test_directory_statements returning_Inr)
  from run_ok_elim [OF layout_fixtures run] d show ?thesis by simp
qed

subsection \<open>Sample runs\<close>

lemma fixtures_scalar: "fx \<in> set fixtures \<Longrightarrow> c \<in> set (snd fx) \<Longrightarrow> list_all scalar c"
proof -
  have md: "list_all scalar sample_md_text"
    by (simp add: sample_md_text_def scalar_lit) (simp add: scalar_def)
  assume "fx \<in> set fixtures" "c \<in> set (snd fx)"
  then show ?thesis
    using md
    by (auto simp: fixtures_def scalar_lit sample_txt_line1_def sample_txt_line2_def
        sample_txt_line3_def sample_txt_line4_def sample_json_text_def sample_py_text_def
        sample_cs_text_def sample_html_text_def sample_css_text_def sample_xml_text_def
        sample_csv_text_def sample_sql_text_def)
qed

lemma writes_ok_nofault:
  assumes "\<forall>c. fault env c = None" and "list_all scalar (linesep env)" and "fx \<in> set fixtures"
  shows "writes_ok env p (snd fx)"
  unfolding writes_ok_def
proof
  fix c assume "c \<in> set (snd fx)"
  with assms(3) have "list_all scalar c" by (rule fixtures_scalar)
  with assms(2) have "encode_text env c \<noteq> None" by (simp add: encode_text_None_iff)
  with assms(1) show "case encode_text env c of None \<Rightarrow> False | Some b \<Rightarrow> fault env (Write p b) = None"
    by (auto split: option.splits)
qed

lemma os_makedirs_new:
  assumes "fs w name = None" and "fs w (os_path_dirname name) = Some Dir"
    and "snd (os_path_split name) \<noteq> []" and "fault env (Mkdir name) = None"
  shows "os_makedirs env name True w = (Inr (), w\<lparr>fs := (fs w)(name \<mapsto> Dir)\<rparr>)"
proof -
  have "fst (makedirs_split name) = os_path_dirname name"
    using assms(3) by (simp add: makedirs_split_def os_path_dirname_def)
  then have "os_makedirs env name True w = mkdir_exist_ok env name True w"
    using assms(2) by (subst os_makedirs.simps) simp
  also have "\<dots> = (Inr (), w\<lparr>fs := (fs w)(name \<mapsto> Dir)\<rparr>)"
    using assms by (simp add: mkdir_exist_ok_def os_mkdir_def)
  finally show ?thesis .
qed

lemma tail_test_dir: "snd (os_path_split (test_dir env)) = lit ''test_preview_files''"
  by (simp add: split_test_dir)

lemma dirname_test_dir:
  "os_path_dirname (test_dir env) = os_path_dirname (os_path_abspath env (script_file env))"
  by (simp add: os_path_dirname_def split_test_dir)

lemma makedirs_split_test_dir:
  "makedirs_split (test_dir env) = (os_path_dirname (test_dir env), lit ''test_preview_files'')"
  by (simp add: makedirs_split_def split_test_dir dirname_test_dir lit_def)

lemma written_lookup:
  assumes "layout d fxs" and "fx \<in> set fxs"
  shows "written env d fxs (target d fx) = Some (stored env fx)"
proof -
  have "distinct (map fst (map (\<lambda>fx. (target d fx, stored env fx)) fxs))"
    using layout_distinct [OF assms(1)] by (simp add: comp_def)
  moreover have "(target d fx, stored env fx) \<in> set (map (\<lambda>fx. (target d fx, stored env fx)) fxs)"
    using assms(2) by auto
  ultimately show ?thesis
    unfolding written_def by (rule map_of_is_SomeI)
qed

lemma written_other: "p \<notin> target d ` set fxs \<Longrightarrow> written env d fxs p = None"
  using dom_written [of env d fxs] by (auto simp: dom_def)

lemma create_succeeds:
  assumes nofault: "\<forall>c. fault env c = None" and ls: "list_all scalar (linesep env)"
    and parent: "fs w (os_path_dirname (test_dir env)) = Some Dir"
    and dir: "fs w (test_dir env) = None \<or> fs w (test_dir env) = Some Dir"
    and nodirs: "\<forall>fx \<in> set fixtures. fs w (target (test_dir env) fx) \<noteq> Some Dir"
  shows "create_test_directory env w =
           (Inr (test_dir env),
            \<lparr>fs = (fs w)(test_dir env \<mapsto> Dir) ++ written env (test_dir env) fixtures,
             stdout = stdout w @ unlines (console (test_dir env) fixtures)\<rparr>)"
proof -
  let ?d = "test_dir env"
  let ?w1 = "w\<lparr>fs := (fs w)(?d \<mapsto> Dir)\<rparr>"
  have mk: "os_makedirs env ?d True w = (Inr (), ?w1)"
  proof (cases "fs w ?d = None")
    case True
    then show ?thesis
      using parent nofault by (intro os_makedirs_new) (simp_all add: tail_test_dir lit_def)
  next
    case False
    with dir have d: "fs w ?d = Some Dir" by simp
    then have same: "(fs w)(?d \<mapsto> Dir) = fs w" by (simp add: map_upd_triv)
    have "os_makedirs env ?d True w = (Inr (), w)"
      using d parent by (intro os_makedirs_existing) (simp_all add: makedirs_split_test_dir)
    then show ?thesis by (simp add: same)
  qed
  have ok: "\<forall>fx \<in> set fixtures. file_ok env ?d ?w1 fx"
  proof
    fix fx assume fx: "fx \<in> set fixtures"
    have ne: "target ?d fx \<noteq> ?d" and dn: "os_path_dirname (target ?d fx) = ?d"
      using layout_target(2) [OF layout_fixtures fx] layout_dirname [OF layout_fixtures fx]
      by simp_all
    have "open_ok env ?w1 (target ?d fx)"
      using nofault nodirs fx ne dn
      by (auto simp: open_ok_def split: option.splits node.splits)
    moreover have "writes_ok env (target ?d fx) (snd fx)"
      using nofault ls fx by (rule writes_ok_nofault)
    ultimately show "file_ok env ?d ?w1 fx" by (simp add: file_ok_def)
  qed
  from create_ok [OF mk ok] show ?thesis by simp
qed

lemma example_test_dir:
  assumes "script_file env = lit ''test_preview.py''" and "getcwd env = lit ''/srv/app''"
  shows "test_dir env = lit ''/srv/app/test_preview_files''"
proof -
  have j: "os_path_join (lit ''/srv/app'') (lit ''test_preview.py'') = lit ''/srv/app/test_preview.py''"
    by (simp add: os_path_join_def isabs_def endswith_sep_def lit_def sep_def)
  have n: "os_path_normpath (lit ''/srv/app/test_preview.py'') = lit ''/srv/app/test_preview.py''"
    by (simp add: os_path_normpath_def initial_slashes_def isabs_def lit_def sep_def
        normpath_step_def curdir_def pardir_def Let_def)
  have a: "os_path_abspath env (script_file env) = lit ''/srv/app/test_preview.py''"
    using assms j n by (simp add: os_path_abspath_def) (simp add: isabs_def lit_def sep_def)
  have d: "os_path_dirname (lit ''/srv/app/test_preview.py'') = lit ''/srv/app''"
    by (simp add: os_path_dirname_def os_path_split_def rstrip_sep_def lit_def sep_def Let_def)
  show ?thesis
    unfolding test_dir_def a d
    by (simp add: os_path_join_def isabs_def endswith_sep_def lit_def sep_def)
qed

lemma example_parent: "os_path_dirname (lit ''/srv/app/test_preview_files'') = lit ''/srv/app''"
  by (simp add: os_path_dirname_def os_path_split_def rstrip_sep_def lit_def sep_def Let_def)

lemma example_target:
  "sep \<notin> set n \<Longrightarrow> target (lit ''/srv/app/test_preview_files'') (n, c) = lit ''/srv/app/test_preview_files/'' @ n"
  by (simp add: target_def os_path_join_rel not_isabs_no_sep endswith_sep_def)
     (simp add: lit_def sep_def)

subsection \<open>The returned directory and the files\<close>

lemma isabs_abspath: "isabs p \<or> isabs (getcwd env) \<Longrightarrow> isabs (os_path_abspath env p)"
  by (auto simp: os_path_abspath_def isabs_normpath isabs_join)

lemma isabs_test_dir:
  "isabs (script_file env) \<or> isabs (getcwd env) \<Longrightarrow> isabs (test_dir env)"
  unfolding test_dir_def
  by (intro isabs_join isabs_dirname isabs_abspath)

lemma fixture_names:
  "map fst fixtures =
     map lit [''sample.txt'', ''sample.json'', ''sample.py'', ''Sample.cs'', ''sample.html'',
              ''sample.css'', ''README.md'', ''sample.xml'', ''sample.csv'', ''sample.sql'']"
  by (simp add: fixtures_def)

lemma test_dir_is_Dir:
  assumes "os_makedirs env (test_dir env) True w = (Inr u, w1)"
  shows "fs w1 (test_dir env) = Some Dir"
  using assms
  by (rule os_makedirs_Dir) (simp add: makedirs_split_test_dir curdir_def lit_def)

lemma example_run:
  assumes "script_file env = lit ''test_preview.py''" and "getcwd env = lit ''/srv/app''"
    and "\<forall>c. fault env c = None" and "list_all scalar (linesep env)"
  shows "create_test_directory env fresh_world =
           (Inr (lit ''/srv/app/test_preview_files''),
            \<lparr>fs = (fs fresh_world)(lit ''/srv/app/test_preview_files'' \<mapsto> Dir)
                    ++ written env (lit ''/srv/app/test_preview_files'') fixtures,
             stdout = unlines (console (lit ''/srv/app/test_preview_files'') fixtures)\<rparr>)"
proof -
  have d: "test_dir env = lit ''/srv/app/test_preview_files''"
    using assms(1,2) by (rule example_test_dir)
  have p: "fs fresh_world (lit ''/srv/app'') = Some Dir"
    by (simp add: fresh_world_def lit_eq_iff)
  have a: "fs fresh_world (lit ''/srv/app/test_preview_files'') = None"
    by (simp add: fresh_world_def lit_eq_iff)
  have t: "fs fresh_world (lit ''/srv/app/test_preview_files/'' @ n) = None" for n
    by (simp add: fresh_world_def lit_def)
  have nodirs: "\<forall>fx \<in> set fixtures. fs fresh_world (target (test_dir env) fx) \<noteq> Some Dir"
  proof
    fix fx assume "fx \<in> set fixtures"
    with layout_fixtures [of env] have "sep \<notin> set (fst fx)" by (simp add: layout_def)
    from example_target [OF this, of "snd fx"] show "fs fresh_world (target (test_dir env) fx) \<noteq> Some Dir"
      by (simp add: d t)
  qed
  have "stdout fresh_world = []" by (simp add: fresh_world_def)
  with create_succeeds [OF assms(3,4) _ _ nodirs] show ?thesis
    by (simp add: d example_parent p a)
qed

text \<open>
  C5. A run that returns hands back the directory \<open>test_preview_files\<close> beside the script:
  the join of the directory of the script's absolute path with that fixed name. Its parent
  is the script's directory, it is an absolute path when the working directory (or
  \<open>__file__\<close> itself) is, and after the run it is a directory of the file system, whether
  or not it was one before.
\<close>

theorem C5_returns_sibling_directory:
  assumes "create_test_directory env w = (Inr d, w')"
  shows "d = os_path_join (os_path_dirname (os_path_abspath env (script_file env)))
               (lit ''test_preview_files'')
         \<and> os_path_split d =
             (os_path_dirname (os_path_abspath env (script_file env)), lit ''test_preview_files'')
         \<and> fs w' d = Some Dir
         \<and> (isabs (script_file env) \<or> isabs (getcwd env) \<longrightarrow> isabs d)"
proof -
  from create_ok_elim [OF assms] obtain w1 where
    d: "d = test_dir env" and mk: "os_makedirs env (test_dir env) True w = (Inr (), w1)"
    and fs': "fs w' = fs w1 ++ written env (test_dir env) fixtures"
    by blast
  have "test_dir env \<notin> target (test_dir env) ` set fixtures"
    using layout_target(2) [OF layout_fixtures] by (metis imageE)
  then have "fs w' (test_dir env) = fs w1 (test_dir env)"
    by (simp add: fs' map_add_def written_other)
  with test_dir_is_Dir [OF mk] have "fs w' d = Some Dir" by (simp add: d)
  then show ?thesis
    using d split_test_dir [of env] isabs_test_dir [of env] by (auto simp: test_dir_def)
qed

theorem C5_returns_sibling_directory_witness:
  "fst (create_test_directory posix_env fresh_world) = Inr (lit ''/srv/app/test_preview_files'')
   \<and> fs fresh_world (lit ''/srv/app/test_preview_files'') = None
   \<and> fs (snd (create_test_directory posix_env fresh_world)) (lit ''/srv/app/test_preview_files'')
       = Some Dir
   \<and> os_path_split (lit ''/srv/app/test_preview_files'') = (lit ''/srv/app'', lit ''test_preview_files'')
   \<and> isabs (lit ''/srv/app/test_preview_files'')"
proof -
  let ?r = "create_test_directory posix_env fresh_world"
  have run: "?r = (Inr (lit ''/srv/app/test_preview_files''), snd ?r)"
    using example_run [of posix_env] by (simp add: posix_env_def scalar_def)
  have abs: "isabs (getcwd posix_env)"
    by (simp add: posix_env_def isabs_def lit_def sep_def)
  have dn: "os_path_dirname (os_path_abspath posix_env (script_file posix_env)) = lit ''/srv/app''"
    using dirname_test_dir [of posix_env] example_test_dir [of posix_env] example_parent
    by (simp add: posix_env_def)
  have none: "fs fresh_world (lit ''/srv/app/test_preview_files'') = None"
    by (simp add: fresh_world_def lit_eq_iff)
  from C5_returns_sibling_directory [OF run]
  have sp: "os_path_split (lit ''/srv/app/test_preview_files'') =
             (os_path_dirname (os_path_abspath posix_env (script_file posix_env)),
              lit ''test_preview_files'')"
    and dir: "fs (snd ?r) (lit ''/srv/app/test_preview_files'') = Some Dir"
    and ab: "isabs (script_file posix_env) \<or> isabs (getcwd posix_env) \<longrightarrow>
             isabs (lit ''/srv/app/test_preview_files'')"
    by blast+
  from run have "fst ?r = Inr (lit ''/srv/app/test_preview_files'')"
    by (metis fst_conv)
  with none sp dir ab abs show ?thesis
    by (simp only: dn) simp
qed

text \<open>
  C1, as the script behaves. After a run that returns, each of the ten names is a file
  directly inside the returned directory, and the file holds the UTF-8 encoding of the
  literal of the source with every line feed written as \<open>os.linesep\<close>: the files are opened
  in text mode with the default newline handling. Where \<open>os.linesep\<close> is the line feed the
  bytes are those of the literal itself.
\<close>

theorem C1_files_hold_encoded_literals:
  assumes "create_test_directory env w = (Inr d, w')"
  shows "map fst fixtures =
           map lit [''sample.txt'', ''sample.json'', ''sample.py'', ''Sample.cs'', ''sample.html'',
                    ''sample.css'', ''README.md'', ''sample.xml'', ''sample.csv'', ''sample.sql'']
         \<and> (\<forall>fx \<in> set fixtures.
               os_path_split (os_path_join d (fst fx)) = (d, fst fx)
             \<and> (\<exists>bs. encode_utf8 (translate_newlines (linesep env) (literal fx)) = Some bs
                    \<and> fs w' (os_path_join d (fst fx)) = Some (File bs))
             \<and> (linesep env = [10] \<longrightarrow>
                  (\<exists>bs. encode_utf8 (literal fx) = Some bs
                     \<and> fs w' (os_path_join d (fst fx)) = Some (File bs))))"
proof -
  from create_ok_elim [OF assms] obtain w1 where
    d: "d = test_dir env"
    and ok: "\<forall>fx \<in> set fixtures. file_ok env (test_dir env) w1 fx"
    and fs': "fs w' = fs w1 ++ written env (test_dir env) fixtures"
    by blast
  have each: "os_path_split (os_path_join d (fst fx)) = (d, fst fx)
             \<and> (\<exists>bs. encode_utf8 (translate_newlines (linesep env) (literal fx)) = Some bs
                    \<and> fs w' (os_path_join d (fst fx)) = Some (File bs))"
    if fx: "fx \<in> set fixtures" for fx
  proof -
    from ok fx have "writes_ok env (target d fx) (snd fx)" by (simp add: file_ok_def d)
    from writes_ok_encodes [OF this] obtain bs where bs: "encode_text env (literal fx) = Some bs"
      by (auto simp: literal_def)
    have "fs w' (target d fx) = Some (stored env fx)"
      using written_lookup [OF layout_fixtures fx, of env env] by (simp add: fs' d)
    with bs have "fs w' (os_path_join d (fst fx)) = Some (File bs)"
      by (simp add: stored_def target_def)
    with bs layout_target(1) [OF layout_fixtures fx, of env] show ?thesis
      by (auto simp: d target_def encode_text_def)
  qed
  then show ?thesis
    using fixture_names by (auto simp: translate_newlines_lf)
qed

theorem C1_files_hold_encoded_literals_witness:
  "fs (snd (create_test_directory posix_env fresh_world))
      (lit ''/srv/app/test_preview_files/sample.json'')
     = Some (File (the (encode_utf8 sample_json_text)))
   \<and> os_path_split (lit ''/srv/app/test_preview_files/sample.json'')
       = (lit ''/srv/app/test_preview_files'', lit ''sample.json'')"
proof -
  let ?r = "create_test_directory posix_env fresh_world"
  let ?fx = "(lit ''sample.json'', [sample_json_text])"
  have run: "?r = (Inr (lit ''/srv/app/test_preview_files''), snd ?r)"
    using example_run [of posix_env] by (simp add: posix_env_def scalar_def)
  have fx: "?fx \<in> set fixtures" by (simp add: fixtures_def)
  have j: "os_path_join (lit ''/srv/app/test_preview_files'') (lit ''sample.json'')
             = lit ''/srv/app/test_preview_files/sample.json''"
    by (simp add: os_path_join_def isabs_def endswith_sep_def lit_def sep_def)
  have ls: "linesep posix_env = [10]" by (simp add: posix_env_def)
  from C1_files_hold_encoded_literals [OF run] fx
  have "os_path_split (os_path_join (lit ''/srv/app/test_preview_files'') (fst ?fx))
          = (lit ''/srv/app/test_preview_files'', fst ?fx)
        \<and> (\<exists>bs. encode_utf8 (literal ?fx) = Some bs
              \<and> fs (snd ?r) (os_path_join (lit ''/srv/app/test_preview_files'') (fst ?fx)) = Some (File bs))"
    using ls by blast
  then show ?thesis
    by (auto simp: j literal_def)
qed

text \<open>
  The claim C1 as it is written asks for the bytes of the literal itself. Where
  \<open>os.linesep\<close> is carriage return and line feed, \<open>sample.txt\<close> holds other bytes after a
  run that returns.
\<close>

theorem C1_byte_identical_counterexample:
  "fst (create_test_directory crlf_env fresh_world) = Inr (lit ''/srv/app/test_preview_files'')
   \<and> fs (snd (create_test_directory crlf_env fresh_world))
        (lit ''/srv/app/test_preview_files/sample.txt'')
      = Some (File (the (encode_utf8 (translate_newlines [13, 10]
            (sample_txt_line1 @ sample_txt_line2 @ sample_txt_line3 @ sample_txt_line4)))))
   \<and> fs (snd (create_test_directory crlf_env fresh_world))
        (lit ''/srv/app/test_preview_files/sample.txt'')
      \<noteq> Some (File (the (encode_utf8
            (sample_txt_line1 @ sample_txt_line2 @ sample_txt_line3 @ sample_txt_line4))))"
proof -
  let ?d = "lit ''/srv/app/test_preview_files''"
  let ?fx = "(lit ''sample.txt'',
               [sample_txt_line1, sample_txt_line2, sample_txt_line3, sample_txt_line4])"
  have run: "create_test_directory crlf_env fresh_world =
           (Inr ?d, \<lparr>fs = (fs fresh_world)(?d \<mapsto> Dir) ++ written crlf_env ?d fixtures,
             stdout = unlines (console ?d fixtures)\<rparr>)"
    using example_run [of crlf_env] by (simp add: crlf_env_def posix_env_def scalar_def)
  have d: "test_dir crlf_env = ?d"
    by (rule example_test_dir) (simp_all add: crlf_env_def posix_env_def)
  have fx: "?fx \<in> set fixtures" by (simp add: fixtures_def)
  have j: "target ?d ?fx = lit ''/srv/app/test_preview_files/sample.txt''"
    by (simp add: target_def os_path_join_def isabs_def endswith_sep_def lit_def sep_def)
  have "written crlf_env ?d fixtures (target ?d ?fx) = Some (stored crlf_env ?fx)"
    using written_lookup [OF layout_fixtures fx, of crlf_env crlf_env] by (simp add: d)
  then have held: "fs (snd (create_test_directory crlf_env fresh_world))
        (lit ''/srv/app/test_preview_files/sample.txt'') = Some (stored crlf_env ?fx)"
    by (simp add: run j)
  have "stored crlf_env ?fx
          \<noteq> File (the (encode_utf8
            (sample_txt_line1 @ sample_txt_line2 @ sample_txt_line3 @ sample_txt_line4)))"
    by (simp add: stored_def literal_def encode_text_def crlf_env_def posix_env_def
        translate_newlines_def sample_txt_line1_def sample_txt_line2_def sample_txt_line3_def
        sample_txt_line4_def lit_def utf8_codepoint_def)
  moreover have "stored crlf_env ?fx
          = File (the (encode_utf8 (translate_newlines [13, 10]
            (sample_txt_line1 @ sample_txt_line2 @ sample_txt_line3 @ sample_txt_line4))))"
    by (simp add: stored_def literal_def encode_text_def crlf_env_def)
  ultimately show ?thesis using held run by simp
qed

subsection \<open>The console\<close>

lemma concat_replicate_single: "concat (replicate n [x]) = replicate n x"
  by (induction n) auto

lemma str_mul_dash: "str_mul (lit ''-'') 50 = replicate 50 45"
  by (simp add: str_mul_def lit_def concat_replicate_single)

lemma not_confirmation: "l = [] \<or> hd l \<noteq> 0x2705 \<Longrightarrow> \<not> is_confirmation l"
  by (cases l) (auto simp: is_confirmation_def created_def lit_def)

lemma is_confirmation_confirmation: "is_confirmation (confirmation d fx)"
  by (simp add: is_confirmation_def confirmation_def)

lemma not_confirmation_rule: "\<not> is_confirmation (str_mul (lit ''-'') 50)"
  by (rule not_confirmation) (simp add: str_mul_dash)

lemma filter_header_lines: "filter is_confirmation (header_lines d) = []"
  by (simp add: header_lines_def not_confirmation_rule)
     (simp add: not_confirmation lit_def)

lemma filter_summary_lines: "filter is_confirmation (summary_lines d) = []"
  by (simp add: summary_lines_def not_confirmation_rule)
     (simp add: not_confirmation lit_def)

lemma filter_console:
  "filter is_confirmation (console d fxs) = map (confirmation d) fxs"
proof -
  have "filter is_confirmation (map (confirmation d) fxs) = map (confirmation d) fxs"
    by (induction fxs) (simp_all add: is_confirmation_confirmation)
  then show ?thesis
    by (simp add: console_def filter_header_lines filter_summary_lines)
qed

lemma console_lines:
  "console d fxs =
     [lit ''Creating test files in: '' @ d, str_mul (lit ''-'') 50]
     @ map (\<lambda>fx. created @ os_path_join d (fst fx)) fxs
     @ [str_mul (lit ''-'') 50,
        [],
        [0x1F389] @ lit '' Test files created successfully!'',
        [],
        lit ''To test preview functionality:'',
        lit ''1. Open OfflineProjectManager'',
        lit ''2. Create or open a project'',
        lit ''3. Add folder: '' @ d,
        lit ''4. Click on each file to test preview'']"
  by (simp add: console_def header_lines_def summary_lines_def confirmation_def target_def)

lemma length_fixtures: "length fixtures = 10"
  by (simp add: fixtures_def)

text \<open>
  C4. After a run that returns, the text added to the standard output is, line by line:
  the announcement of the directory and a rule of fifty dashes; one confirmation line per
  fixture, in the order of the source, the check mark and \<open>Created:\<close> followed by the
  path of the file; the rule again; and the summary, with its two empty lines, which names
  OfflineProjectManager. Exactly the ten confirmation lines begin with the check mark and
  \<open>Created:\<close>, and the paths are absolute when the working directory (or \<open>__file__\<close>) is.
\<close>

theorem C4_console_output:
  assumes "create_test_directory env w = (Inr d, w')"
  shows "stdout w' = stdout w @ unlines (console d fixtures)
         \<and> console d fixtures =
             [lit ''Creating test files in: '' @ d, str_mul (lit ''-'') 50]
             @ map (\<lambda>fx. created @ os_path_join d (fst fx)) fixtures
             @ [str_mul (lit ''-'') 50,
                [],
                [0x1F389] @ lit '' Test files created successfully!'',
                [],
                lit ''To test preview functionality:'',
                lit ''1. Open OfflineProjectManager'',
                lit ''2. Create or open a project'',
                lit ''3. Add folder: '' @ d,
                lit ''4. Click on each file to test preview'']
         \<and> filter is_confirmation (console d fixtures)
             = map (\<lambda>fx. created @ os_path_join d (fst fx)) fixtures
         \<and> length (filter is_confirmation (console d fixtures)) = 10
         \<and> (isabs (script_file env) \<or> isabs (getcwd env) \<longrightarrow>
               (\<forall>fx \<in> set fixtures. isabs (os_path_join d (fst fx))))"
proof -
  from create_ok_elim [OF assms] have d: "d = test_dir env"
    and out: "stdout w' = stdout w @ unlines (console d fixtures)"
    by auto
  have f: "filter is_confirmation (console d fixtures)
             = map (\<lambda>fx. created @ os_path_join d (fst fx)) fixtures"
    by (simp add: filter_console confirmation_def target_def)
  have "isabs (os_path_join d n)" if "isabs (script_file env) \<or> isabs (getcwd env)" for n
    using isabs_test_dir [OF that] by (simp add: d isabs_join)
  with out f show ?thesis
    by (simp add: console_lines length_fixtures)
qed

theorem C4_console_output_witness:
  "stdout (snd (create_test_directory posix_env fresh_world)) =
     unlines
       [lit ''Creating test files in: /srv/app/test_preview_files'',
        str_mul (lit ''-'') 50,
        [0x2705] @ lit '' Created: /srv/app/test_preview_files/sample.txt'',
        [0x2705] @ lit '' Created: /srv/app/test_preview_files/sample.json'',
        [0x2705] @ lit '' Created: /srv/app/test_preview_files/sample.py'',
        [0x2705] @ lit '' Created: /srv/app/test_preview_files/Sample.cs'',
        [0x2705] @ lit '' Created: /srv/app/test_preview_files/sample.html'',
        [0x2705] @ lit '' Created: /srv/app/test_preview_files/sample.css'',
        [0x2705] @ lit '' Created: /srv/app/test_preview_files/README.md'',
        [0x2705] @ lit '' Created: /srv/app/test_preview_files/sample.xml'',
        [0x2705] @ lit '' Created: /srv/app/test_preview_files/sample.csv'',
        [0x2705] @ lit '' Created: /srv/app/test_preview_files/sample.sql'',
        str_mul (lit ''-'') 50,
        [],
        [0x1F389] @ lit '' Test files created successfully!'',
        [],
        lit ''To test preview functionality:'',
        lit ''1. Open OfflineProjectManager'',
        lit ''2. Create or open a project'',
        lit ''3. Add folder: /srv/app/test_preview_files'',
        lit ''4. Click on each file to test preview'']"
proof -
  let ?r = "create_test_directory posix_env fresh_world"
  let ?d = "lit ''/srv/app/test_preview_files''"
  have run: "?r = (Inr ?d, snd ?r)"
    using example_run [of posix_env] by (simp add: posix_env_def scalar_def)
  from C4_console_output [OF run]
  have out: "stdout (snd ?r) = stdout fresh_world @ unlines (console ?d fixtures)"
    and lines: "console ?d fixtures =
             [lit ''Creating test files in: '' @ ?d, str_mul (lit ''-'') 50]
             @ map (\<lambda>fx. created @ os_path_join ?d (fst fx)) fixtures
             @ [str_mul (lit ''-'') 50,
                [],
                [0x1F389] @ lit '' Test files created successfully!'',
                [],
                lit ''To test preview functionality:'',
                lit ''1. Open OfflineProjectManager'',
                lit ''2. Create or open a project'',
                lit ''3. Add folder: '' @ ?d,
                lit ''4. Click on each file to test preview'']"
    by blast+
  show ?thesis
    unfolding out lines
    by (simp add: fresh_world_def fixtures_def created_def os_path_join_def isabs_def
        endswith_sep_def lit_def sep_def)
qed

subsection \<open>Failure of directory creation, and repetition\<close>

lemma layout_target_longer:
  assumes "layout d fxs" and "fx \<in> set fxs"
  shows "length d < length (target d fx)"
proof -
  from assms have n: "sep \<notin> set (fst fx)" and ne: "fst fx \<noteq> []"
    by (auto simp: layout_def)
  show ?thesis
    using ne not_isabs_no_sep [OF n] by (simp add: target_def os_path_join_rel)
qed

lemma grows_files:
  "grows n w w1 \<Longrightarrow> (fs w1 p = Some (File b)) = (fs w p = Some (File b))"
  unfolding grows_def by (metis node.distinct(1) option.distinct(1) option.inject)

lemma grows_kept: "grows n w w1 \<Longrightarrow> fs w p \<noteq> None \<Longrightarrow> fs w1 p = fs w p"
  unfolding grows_def by metis

lemma grows_longer: "grows n w w1 \<Longrightarrow> n < length p \<Longrightarrow> fs w1 p = fs w p"
  unfolding grows_def by (metis not_le)

lemma create_raises_makedirs:
  "os_makedirs env (test_dir env) True w = (Inl e, w1) \<Longrightarrow>
     create_test_directory env w = (Inl e, w1)"
  by (simp add: create_test_directory_statements statements_run returning_def)

text \<open>
  C2. When \<open>os.makedirs\<close> raises, the function raises the same exception at once: nothing
  has been printed, and every file of the file system is a file that was there before,
  with the content it had (\<open>os.makedirs\<close> may have created parent directories, but no file
  is opened). In a file system where the output directory and the ten paths, if they
  exist, have their parent directory, none of the ten files exists then.
\<close>

theorem C2_makedirs_failure_writes_nothing:
  assumes "os_makedirs env (test_dir env) True w = (Inl e, w1)"
  shows "create_test_directory env w = (Inl e, w1)
         \<and> stdout w1 = stdout w
         \<and> (\<forall>p b. (fs w1 p = Some (File b)) = (fs w p = Some (File b)))
         \<and> ((\<forall>p \<in> set (test_dir env # map (target (test_dir env)) fixtures).
                fs w p \<noteq> None \<longrightarrow> fs w (os_path_dirname p) = Some Dir)
              \<longrightarrow> (\<forall>fx \<in> set fixtures. fs w1 (target (test_dir env) fx) = None))"
proof -
  let ?d = "test_dir env"
  have g: "grows (length ?d) w w1"
    using assms by (rule os_makedirs_grows)
  have none: "fs w1 (target ?d fx) = None"
    if wf: "\<forall>p \<in> set (?d # map (target ?d) fixtures).
                fs w p \<noteq> None \<longrightarrow> fs w (os_path_dirname p) = Some Dir"
      and fx: "fx \<in> set fixtures" for fx
  proof -
    have wfd: "fs w ?d \<noteq> None \<longrightarrow> fs w (os_path_dirname ?d) \<noteq> None"
      using wf by simp
    have nodir: "fs w1 ?d \<noteq> Some Dir"
      using assms _ wfd by (rule os_makedirs_raises) (simp add: tail_test_dir lit_def)
    have same: "fs w1 (target ?d fx) = fs w (target ?d fx)"
      using g layout_target_longer [OF layout_fixtures fx] by (rule grows_longer)
    show ?thesis
    proof (rule ccontr)
      assume "fs w1 (target ?d fx) \<noteq> None"
      with same have "fs w (target ?d fx) \<noteq> None" by simp
      with wf fx have "fs w (os_path_dirname (target ?d fx)) = Some Dir" by simp
      then have "fs w ?d = Some Dir"
        by (simp add: layout_dirname [OF layout_fixtures fx])
      with grows_kept [OF g, of ?d] nodir show False by simp
    qed
  qed
  from g have "stdout w1 = stdout w" by (simp add: grows_def)
  with create_raises_makedirs [OF assms] grows_files [OF g] none show ?thesis
    by blast
qed

theorem C2_makedirs_failure_writes_nothing_witness:
  "create_test_directory denied_env fresh_world
     = (Inl (PermissionError (lit ''/srv/app/test_preview_files'')), fresh_world)
   \<and> fs fresh_world (lit ''/srv/app/test_preview_files/sample.txt'') = None"
proof -
  let ?d = "lit ''/srv/app/test_preview_files''"
  have d: "test_dir denied_env = ?d"
    by (rule example_test_dir) (simp_all add: denied_env_def posix_env_def)
  have ms: "makedirs_split ?d = (lit ''/srv/app'', lit ''test_preview_files'')"
    using makedirs_split_test_dir [of denied_env] by (simp add: d example_parent)
  have p: "fs fresh_world (lit ''/srv/app'') = Some Dir"
    by (simp add: fresh_world_def lit_eq_iff)
  have a: "fs fresh_world ?d = None"
    by (simp add: fresh_world_def lit_eq_iff)
  have "os_makedirs denied_env ?d True fresh_world = mkdir_exist_ok denied_env ?d True fresh_world"
    by (subst os_makedirs.simps) (simp add: ms p)
  also have "\<dots> = (Inl (PermissionError ?d), fresh_world)"
    by (simp add: mkdir_exist_ok_def os_mkdir_def denied_env_def os_error_def a)
  finally have mk: "os_makedirs denied_env (test_dir denied_env) True fresh_world
                     = (Inl (PermissionError ?d), fresh_world)"
    by (simp add: d)
  have t: "fs fresh_world (lit ''/srv/app/test_preview_files/sample.txt'') = None"
    by (simp add: fresh_world_def lit_eq_iff)
  from C2_makedirs_failure_writes_nothing [OF mk] t show ?thesis
    by blast
qed

lemma map_add_idem: "(f ++ m) ++ m = f ++ m"
  by (rule ext) (simp add: map_add_def split: option.splits)

text \<open>
  C3. A run that returns can be repeated at once: the second run returns the same
  directory, leaves the file system exactly as the first run left it, and prints the same
  text again. \<open>os.makedirs\<close> finds the directory and is content with it
  (\<open>exist_ok=True\<close>), and every file is opened for writing anew, cut to length zero and
  filled with the same bytes. The file system is taken to hold the parent of the output
  directory whenever it holds the directory itself.
\<close>

theorem C3_second_run_changes_nothing:
  assumes run: "create_test_directory env w = (Inr d, w1)"
    and wf: "fs w d \<noteq> None \<longrightarrow> fs w (os_path_dirname d) \<noteq> None"
  shows "fst (create_test_directory env w1) = Inr d
         \<and> fs (snd (create_test_directory env w1)) = fs w1
         \<and> stdout (snd (create_test_directory env w1)) = stdout w1 @ unlines (console d fixtures)
         \<and> stdout w1 = stdout w @ unlines (console d fixtures)"
proof -
  from create_ok_elim [OF run] obtain w0 where
    d: "d = test_dir env" and mk: "os_makedirs env d True w = (Inr (), w0)"
    and ok: "\<forall>fx \<in> set fixtures. file_ok env d w0 fx"
    and fs1: "fs w1 = fs w0 ++ written env d fixtures"
    and out1: "stdout w1 = stdout w @ unlines (console d fixtures)"
    by blast
  have lay: "layout d fixtures" unfolding d by (rule layout_fixtures)
  have notin: "p \<notin> target d ` set fixtures" if "length p \<le> length d" for p
    using layout_target_longer [OF lay] that by (metis imageE not_le)
  have keep: "fs w1 p = fs w0 p" if "length p \<le> length d" for p
    using notin [OF that] by (simp add: fs1 map_add_def written_other)
  have dir: "fs w1 d = Some Dir"
    using test_dir_is_Dir [of env w "()" w0] mk keep [of d] by (simp add: d)
  have tail: "snd (os_path_split d) \<noteq> []" "snd (os_path_split d) \<noteq> curdir"
    by (simp_all add: d tail_test_dir lit_def curdir_def)
  from os_makedirs_parent [OF mk tail wf]
  have "os_path_dirname d = [] \<or> fs w0 (os_path_dirname d) \<noteq> None" .
  moreover have "length (os_path_dirname d) \<le> length d"
    using length_os_path_split [of d] by (simp add: os_path_dirname_def)
  ultimately have parent: "os_path_dirname d = [] \<or> fs w1 (os_path_dirname d) \<noteq> None"
    using keep by simp
  have ms: "fst (makedirs_split d) = os_path_dirname d"
    by (simp add: d makedirs_split_test_dir)
  have mk2: "os_makedirs env d True w1 = (Inr (), w1)"
    using dir parent by (intro os_makedirs_existing) (simp_all add: ms)
  have ok2: "\<forall>fx \<in> set fixtures. file_ok env d w1 fx"
  proof
    fix fx assume fx: "fx \<in> set fixtures"
    have "fs w1 (target d fx) = Some (stored env fx)"
      by (simp add: fs1 written_lookup [OF lay fx])
    with ok fx show "file_ok env d w1 fx"
      by (simp add: file_ok_def open_ok_def stored_def)
  qed
  from create_ok [OF mk2 [unfolded d] ok2 [unfolded d]]
  have "create_test_directory env w1 =
          (Inr d, \<lparr>fs = fs w1 ++ written env d fixtures,
                   stdout = stdout w1 @ unlines (console d fixtures)\<rparr>)"
    by (simp add: d)
  moreover have "fs w1 ++ written env d fixtures = fs w1"
    by (simp add: fs1 map_add_idem)
  ultimately show ?thesis using out1 by simp
qed

theorem C3_second_run_changes_nothing_witness:
  "fst (create_test_directory posix_env (snd (create_test_directory posix_env fresh_world)))
     = Inr (lit ''/srv/app/test_preview_files'')
   \<and> fs (snd (create_test_directory posix_env (snd (create_test_directory posix_env fresh_world))))
     = fs (snd (create_test_directory posix_env fresh_world))"
proof -
  let ?r = "create_test_directory posix_env fresh_world"
  have run: "?r = (Inr (lit ''/srv/app/test_preview_files''), snd ?r)"
    using example_run [of posix_env] by (simp add: posix_env_def scalar_def)
  have "fs fresh_world (lit ''/srv/app/test_preview_files'') = None"
    by (simp add: fresh_world_def lit_eq_iff)
  then have wf: "fs fresh_world (lit ''/srv/app/test_preview_files'') \<noteq> None \<longrightarrow>
      fs fresh_world (os_path_dirname (lit ''/srv/app/test_preview_files'')) \<noteq> None"
    by simp
  from C3_second_run_changes_nothing [OF run wf] show ?thesis
    by blast
qed

subsection \<open>Failures while writing, and files that exist already\<close>

lemma write_all_append:
  "write_all env d (as @ bs) w =
     (case write_all env d as w of
        (Inl e, w1) \<Rightarrow> (Inl e, w1)
      | (Inr u, w1) \<Rightarrow> write_all env d bs w1)"
  unfolding write_all_def by (simp add: seq_append)

lemma write_all_stdout:
  "write_all env d fxs w = (Inr u, w') \<Longrightarrow>
     stdout w' = stdout w @ unlines (map (confirmation d) fxs)"
proof (induction fxs arbitrary: w)
  case Nil
  then show ?case by (simp add: write_all_Nil unlines_def)
next
  case (Cons fx fxs)
  obtain r0 w0 where wf: "write_file env d fx w = (r0, w0)" by (cases "write_file env d fx w")
  with Cons.prems obtain u0 where r0: "r0 = Inr u0"
    by (cases r0) (simp_all add: write_all_Cons)
  from Cons.prems wf r0
  have "write_all env d fxs (w0\<lparr>stdout := stdout w0 @ confirmation d fx @ [10]\<rparr>) = (Inr u, w')"
    by (simp add: write_all_Cons)
  from Cons.IH [OF this] write_file_frame [OF wf] show ?case
    by (simp add: unlines_def)
qed

lemma write_all_frame:
  "write_all env d fxs w = (r, w') \<Longrightarrow> q \<notin> target d ` set fxs \<Longrightarrow> fs w' q = fs w q"
proof (induction fxs arbitrary: w)
  case Nil
  then show ?case by (simp add: write_all_Nil)
next
  case (Cons fx fxs)
  obtain r0 w0 where wf: "write_file env d fx w = (r0, w0)" by (cases "write_file env d fx w")
  from Cons.prems(2) have q: "q \<noteq> target d fx" "q \<notin> target d ` set fxs" by auto
  show ?case
  proof (cases r0)
    case (Inl e)
    with Cons.prems(1) wf write_file_frame [OF wf] q show ?thesis
      by (simp add: write_all_Cons)
  next
    case (Inr u0)
    with Cons.prems(1) wf
    have "write_all env d fxs (w0\<lparr>stdout := stdout w0 @ confirmation d fx @ [10]\<rparr>) = (r, w')"
      by (simp add: write_all_Cons)
    from Cons.IH [OF this q(2)] write_file_frame [OF wf] q(1) show ?thesis by simp
  qed
qed

lemma create_raises_write:
  assumes k: "k < length fixtures"
    and mk: "os_makedirs env (test_dir env) True w = (Inr u, w1)"
    and hd: "seq (header (test_dir env)) w1 = (Inr u', w2)"
    and pre: "write_all env (test_dir env) (take k fixtures) w2 = (Inr u'', w3)"
    and bad: "write_file env (test_dir env) (fixtures ! k) w3 = (Inl e, w4)"
  shows "create_test_directory env w = (Inl e, w4)"
proof -
  let ?d = "test_dir env"
  have w2: "w2 = w1\<lparr>stdout := stdout w1 @ unlines (header_lines ?d)\<rparr>"
    using hd by (simp add: seq_header)
  have split: "fixtures = take k fixtures @ fixtures ! k # drop (Suc k) fixtures"
    using k by (simp add: id_take_nth_drop)
  have "write_all env ?d (take k fixtures @ fixtures ! k # drop (Suc k) fixtures) w2 = (Inl e, w4)"
    using pre bad by (simp add: write_all_append write_all_Cons)
  with split have "write_all env ?d fixtures w2 = (Inl e, w4)" by simp
  then show ?thesis
    using mk by (simp add: create_test_directory_statements statements_run returning_def w2)
qed

text \<open>
  C6. The function has no \<open>try\<close>: the exception that an operation raises is the outcome of
  the whole call, and the world is left as that operation left it. When \<open>os.makedirs\<close>
  raises, the call raises the same exception. When the directory is made, the first \<open>k\<close>
  files are written and the block of the next file raises (in \<open>open\<close> or in a \<open>write\<close>),
  the call raises that exception: the console holds the two opening lines and the \<open>k\<close>
  confirmation lines of the files written before, and no later file has been touched.
\<close>

theorem C6_failures_propagate:
  "(os_makedirs env (test_dir env) True w = (Inl e, w1) \<longrightarrow>
      create_test_directory env w = (Inl e, w1))
   \<and> (k < length fixtures
        \<and> os_makedirs env (test_dir env) True w = (Inr (), w1)
        \<and> seq (header (test_dir env)) w1 = (Inr (), w2)
        \<and> write_all env (test_dir env) (take k fixtures) w2 = (Inr (), w3)
        \<and> write_file env (test_dir env) (fixtures ! k) w3 = (Inl e, w4) \<longrightarrow>
      create_test_directory env w = (Inl e, w4)
      \<and> stdout w4 = stdout w @ unlines (header_lines (test_dir env)
                                         @ map (confirmation (test_dir env)) (take k fixtures))
      \<and> (\<forall>j. k < j \<and> j < length fixtures \<longrightarrow>
            fs w4 (target (test_dir env) (fixtures ! j))
              = fs w (target (test_dir env) (fixtures ! j))))"
proof (intro conjI impI)
  assume "os_makedirs env (test_dir env) True w = (Inl e, w1)"
  then show "create_test_directory env w = (Inl e, w1)" by (rule create_raises_makedirs)
next
  let ?d = "test_dir env"
  assume a: "k < length fixtures
        \<and> os_makedirs env ?d True w = (Inr (), w1)
        \<and> seq (header ?d) w1 = (Inr (), w2)
        \<and> write_all env ?d (take k fixtures) w2 = (Inr (), w3)
        \<and> write_file env ?d (fixtures ! k) w3 = (Inl e, w4)"
  then have k: "k < length fixtures" and mk: "os_makedirs env ?d True w = (Inr (), w1)"
    and hd: "seq (header ?d) w1 = (Inr (), w2)"
    and pre: "write_all env ?d (take k fixtures) w2 = (Inr (), w3)"
    and bad: "write_file env ?d (fixtures ! k) w3 = (Inl e, w4)"
    by simp_all
  show "create_test_directory env w = (Inl e, w4)"
    using k mk hd pre bad by (rule create_raises_write)
  have g: "grows (length ?d) w w1" using mk by (rule os_makedirs_grows)
  have w2: "w2 = w1\<lparr>stdout := stdout w1 @ unlines (header_lines ?d)\<rparr>"
    using hd by (simp add: seq_header)
  have "stdout w4 = stdout w3" using write_file_frame [OF bad] by simp
  also have "\<dots> = stdout w2 @ unlines (map (confirmation ?d) (take k fixtures))"
    using pre by (rule write_all_stdout)
  also have "stdout w2 = stdout w @ unlines (header_lines ?d)"
    using g by (simp add: w2 grows_def)
  finally show "stdout w4 = stdout w @ unlines (header_lines ?d
                                         @ map (confirmation ?d) (take k fixtures))"
    by (simp add: unlines_append)
  show "\<forall>j. k < j \<and> j < length fixtures \<longrightarrow>
            fs w4 (target ?d (fixtures ! j)) = fs w (target ?d (fixtures ! j))"
  proof (intro allI impI)
    fix j assume j: "k < j \<and> j < length fixtures"
    let ?t = "target ?d (fixtures ! j)"
    have dist: "distinct (map (target ?d) fixtures)"
      by (rule layout_distinct [OF layout_fixtures])
    have nth: "map (target ?d) fixtures ! i = target ?d (fixtures ! i)" if "i < length fixtures" for i
      using that by simp
    have ne: "?t \<noteq> target ?d (fixtures ! i)" if "i < j" for i
    proof -
      from that j have i: "i < length (map (target ?d) fixtures)" "j < length (map (target ?d) fixtures)"
        by simp_all
      from nth_eq_iff_index_eq [OF dist i] that
      have "map (target ?d) fixtures ! i \<noteq> map (target ?d) fixtures ! j" by simp
      with i show ?thesis by simp
    qed
    have notin: "?t \<notin> target ?d ` set (take k fixtures)"
    proof
      assume "?t \<in> target ?d ` set (take k fixtures)"
      then obtain fx where fx: "fx \<in> set (take k fixtures)" "?t = target ?d fx" by auto
      then obtain i where "i < length (take k fixtures)" "take k fixtures ! i = fx"
        by (auto simp: in_set_conv_nth)
      then have "i < k" "fixtures ! i = fx" by simp_all
      with ne [of i] j fx(2) show False by simp
    qed
    have "fs w4 ?t = fs w3 ?t"
      using write_file_frame [OF bad] ne [of k] j by simp
    also have "\<dots> = fs w2 ?t" using pre notin by (rule write_all_frame)
    also have "\<dots> = fs w1 ?t" by (simp add: w2)
    also have "\<dots> = fs w ?t"
      using g by (rule grows_longer) (use j in \<open>simp add: layout_target_longer [OF layout_fixtures]\<close>)
    finally show "fs w4 ?t = fs w ?t" .
  qed
qed

theorem C6_failures_propagate_witness:
  "fst (create_test_directory locked_env fresh_world)
     = Inl (PermissionError (lit ''/srv/app/test_preview_files/sample.json''))
   \<and> stdout (snd (create_test_directory locked_env fresh_world))
     = unlines [lit ''Creating test files in: /srv/app/test_preview_files'',
                str_mul (lit ''-'') 50,
                [0x2705] @ lit '' Created: /srv/app/test_preview_files/sample.txt'']
   \<and> fs (snd (create_test_directory locked_env fresh_world))
        (lit ''/srv/app/test_preview_files/sample.py'') = None"
proof -
  let ?d = "lit ''/srv/app/test_preview_files''"
  let ?txt = "(lit ''sample.txt'',
               [sample_txt_line1, sample_txt_line2, sample_txt_line3, sample_txt_line4])"
  let ?json = "(lit ''sample.json'', [sample_json_text])"
  let ?py = "(lit ''sample.py'', [sample_py_text])"
  let ?w1 = "fresh_world\<lparr>fs := (fs fresh_world)(?d \<mapsto> Dir)\<rparr>"
  let ?w2 = "?w1\<lparr>stdout := stdout ?w1 @ unlines (header_lines ?d)\<rparr>"
  let ?w3 = "?w2\<lparr>fs := fs ?w2 ++ written locked_env ?d [?txt],
                 stdout := stdout ?w2 @ unlines (map (confirmation ?d) [?txt])\<rparr>"
  have d: "test_dir locked_env = ?d"
    by (rule example_test_dir) (simp_all add: locked_env_def posix_env_def)
  have fx: "take 1 fixtures = [?txt]" "fixtures ! 1 = ?json" "fixtures ! 2 = ?py"
    by (simp_all add: fixtures_def)
  have tt: "target ?d ?txt = lit ''/srv/app/test_preview_files/sample.txt''"
    and tj: "target ?d ?json = lit ''/srv/app/test_preview_files/sample.json''"
    and tp: "target ?d ?py = lit ''/srv/app/test_preview_files/sample.py''"
    by (simp_all add: target_def os_path_join_def isabs_def endswith_sep_def lit_def sep_def)
  have mk: "os_makedirs locked_env (test_dir locked_env) True fresh_world = (Inr (), ?w1)"
    unfolding d
    by (rule os_makedirs_new)
       (simp_all add: example_parent fresh_world_def lit_eq_iff locked_env_def posix_env_def
          tail_test_dir [of locked_env, unfolded d], simp add: lit_def)
  have hd: "seq (header (test_dir locked_env)) ?w1 = (Inr (), ?w2)"
    by (simp add: d seq_header)
  have lay: "layout ?d [?txt]"
    using layout_fixtures [of locked_env] by (simp add: d layout_def fixtures_def)
  have "writes_ok locked_env (target ?d ?txt) (snd ?txt)"
  proof -
    have "\<forall>c \<in> set (snd ?txt). encode_text locked_env c \<noteq> None"
      using fixtures_scalar [of ?txt]
      by (simp add: encode_text_None_iff locked_env_def posix_env_def scalar_def fixtures_def)
    then show ?thesis
      unfolding writes_ok_def
      by (auto simp: locked_env_def posix_env_def split: option.splits)
  qed
  moreover have "open_ok locked_env ?w2 (target ?d ?txt)"
    unfolding tt
    by (simp add: open_ok_def locked_env_def posix_env_def lit_eq_iff fresh_world_def)
       (simp add: os_path_dirname_def os_path_split_def rstrip_sep_def lit_def sep_def Let_def)
  ultimately have ok1: "\<forall>fx \<in> set [?txt]. file_ok locked_env ?d ?w2 fx"
    by (simp add: file_ok_def)
  have pre: "write_all locked_env (test_dir locked_env) (take 1 fixtures) ?w2 = (Inr (), ?w3)"
    unfolding d fx(1) by (rule write_all_ok [OF lay ok1])
  have bad: "write_file locked_env (test_dir locked_env) (fixtures ! 1) ?w3
               = (Inl (PermissionError (lit ''/srv/app/test_preview_files/sample.json'')), ?w3)"
    unfolding d fx
    by (simp add: write_file_def with_open_w_def open_w_def tj locked_env_def posix_env_def
        os_error_def)
  have k: "(1::nat) < length fixtures" "(1::nat) < 2 \<and> 2 < length fixtures"
    by (simp_all add: length_fixtures)
  from C6_failures_propagate [of locked_env fresh_world _ ?w1 1 ?w2 ?w3 ?w3] k mk hd pre bad
  have run: "create_test_directory locked_env fresh_world
               = (Inl (PermissionError (lit ''/srv/app/test_preview_files/sample.json'')), ?w3)"
    and later: "fs ?w3 (target (test_dir locked_env) (fixtures ! 2))
                  = fs fresh_world (target (test_dir locked_env) (fixtures ! 2))"
    by blast+
  have out: "stdout ?w3 = unlines [lit ''Creating test files in: /srv/app/test_preview_files'',
                str_mul (lit ''-'') 50,
                [0x2705] @ lit '' Created: /srv/app/test_preview_files/sample.txt'']"
    by (simp add: fresh_world_def header_lines_def confirmation_def tt unlines_def)
       (simp add: created_def lit_def)
  have "fs fresh_world (lit ''/srv/app/test_preview_files/sample.py'') = None"
    by (simp add: fresh_world_def lit_eq_iff)
  with later have "fs ?w3 (lit ''/srv/app/test_preview_files/sample.py'') = None"
    by (simp only: d fx tp)
  with run out show ?thesis by (simp only: fst_conv snd_conv)
qed

text \<open>
  C7. Each fixture is written as text through the UTF-8 codec to the join of the output
  directory with its name. A file that is already at that path is opened for writing and
  cut to length zero: after a run that returns it holds the encoding of the new text and
  nothing of what it held. Nothing is kept of the old content elsewhere either: every
  path that is not one of the ten holds what it held before the run, or is a directory
  that the run created; and the console shows no line beyond the usual ones.
\<close>

theorem C7_existing_files_are_replaced:
  assumes "create_test_directory env w = (Inr d, w')"
    and "fx \<in> set fixtures"
    and "fs w (os_path_join d (fst fx)) = Some (File old)"
  shows "(\<exists>bs. encode_utf8 (translate_newlines (linesep env) (literal fx)) = Some bs
            \<and> fs w' (os_path_join d (fst fx)) = Some (File bs))
         \<and> (\<forall>p. p \<notin> (\<lambda>fy. os_path_join d (fst fy)) ` set fixtures \<longrightarrow>
                fs w' p = fs w p \<or> (fs w p = None \<and> fs w' p = Some Dir))
         \<and> stdout w' = stdout w @ unlines (console d fixtures)"
proof -
  from create_ok_elim [OF assms(1)] obtain w1 where
    d: "d = test_dir env" and mk: "os_makedirs env d True w = (Inr (), w1)"
    and ok: "\<forall>fx \<in> set fixtures. file_ok env d w1 fx"
    and fs': "fs w' = fs w1 ++ written env d fixtures"
    and out: "stdout w' = stdout w @ unlines (console d fixtures)"
    by blast
  have lay: "layout d fixtures" unfolding d by (rule layout_fixtures)
  from ok assms(2) have "writes_ok env (target d fx) (snd fx)" by (simp add: file_ok_def)
  from writes_ok_encodes [OF this] obtain bs where bs: "encode_text env (literal fx) = Some bs"
    by (auto simp: literal_def)
  have "fs w' (target d fx) = Some (stored env fx)"
    by (simp add: fs' written_lookup [OF lay assms(2)])
  with bs have new: "encode_utf8 (translate_newlines (linesep env) (literal fx)) = Some bs
            \<and> fs w' (os_path_join d (fst fx)) = Some (File bs)"
    by (simp add: stored_def target_def encode_text_def)
  have g: "grows (length d) w w1" using mk by (rule os_makedirs_grows)
  have img: "(\<lambda>fy. os_path_join d (fst fy)) ` set fixtures = target d ` set fixtures"
    by (simp add: target_def [abs_def])
  have "fs w' p = fs w p \<or> (fs w p = None \<and> fs w' p = Some Dir)"
    if "p \<notin> target d ` set fixtures" for p
  proof -
    from that have "fs w' p = fs w1 p" by (simp add: fs' map_add_def written_other)
    with g show ?thesis unfolding grows_def by metis
  qed
  with new out img show ?thesis by auto
qed

theorem C7_existing_files_are_replaced_witness:
  "fs stale_world (lit ''/srv/app/test_preview_files/sample.csv'') = Some (File [111, 108, 100])
   \<and> fs (snd (create_test_directory posix_env stale_world))
        (lit ''/srv/app/test_preview_files/sample.csv'')
      = Some (File (the (encode_utf8 sample_csv_text)))"
proof -
  let ?d = "lit ''/srv/app/test_preview_files''"
  let ?r = "create_test_directory posix_env stale_world"
  let ?csv = "(lit ''sample.csv'', [sample_csv_text])"
  have d: "test_dir posix_env = ?d"
    by (rule example_test_dir) (simp_all add: posix_env_def)
  have nodirs: "\<forall>fx \<in> set fixtures. fs stale_world (target (test_dir posix_env) fx) \<noteq> Some Dir"
  proof
    fix fx assume "fx \<in> set fixtures"
    with layout_fixtures [of posix_env] have "sep \<notin> set (fst fx)" by (simp add: layout_def)
    from example_target [OF this, of "snd fx"]
    show "fs stale_world (target (test_dir posix_env) fx) \<noteq> Some Dir"
      by (simp add: d) (simp add: stale_world_def fresh_world_def lit_def)
  qed
  have a1: "\<forall>c. fault posix_env c = None" by (simp add: posix_env_def)
  have a2: "list_all scalar (linesep posix_env)" by (simp add: posix_env_def scalar_def)
  have a3: "fs stale_world (os_path_dirname (test_dir posix_env)) = Some Dir"
    unfolding d example_parent by (simp add: stale_world_def fresh_world_def lit_eq_iff)
  have a4: "fs stale_world (test_dir posix_env) = None \<or> fs stale_world (test_dir posix_env) = Some Dir"
    unfolding d by (simp add: stale_world_def lit_eq_iff)
  from create_succeeds [OF a1 a2 a3 a4 nodirs]
  have run: "?r = (Inr ?d, snd ?r)" by (simp add: d)
  have fx: "?csv \<in> set fixtures" by (simp add: fixtures_def)
  have j: "os_path_join ?d (fst ?csv) = lit ''/srv/app/test_preview_files/sample.csv''"
    by (simp add: os_path_join_def isabs_def endswith_sep_def lit_def sep_def)
  have old: "fs stale_world (os_path_join ?d (fst ?csv)) = Some (File [111, 108, 100])"
    unfolding j by (simp add: stale_world_def)
  from C7_existing_files_are_replaced [OF run fx old]
  obtain bs where "encode_utf8 (translate_newlines (linesep posix_env) (literal ?csv)) = Some bs"
    "fs (snd ?r) (os_path_join ?d (fst ?csv)) = Some (File bs)"
    by blast
  then have "fs (snd ?r) (lit ''/srv/app/test_preview_files/sample.csv'')
      = Some (File (the (encode_utf8 sample_csv_text)))"
    unfolding j by (simp add: posix_env_def translate_newlines_lf literal_def)
  with old show ?thesis unfolding j by simp
qed

subsection \<open>Order, determinism and the ten paths\<close>

lemma layout_perm:
  assumes "mset ps = mset fxs" and "layout d fxs"
  shows "layout d ps"
proof -
  from assms(1) have s: "set ps = set fxs" by (rule mset_eq_setD)
  from assms(1) have "mset (map fst ps) = mset (map fst fxs)" by simp
  then have "distinct (map fst ps) = distinct (map fst fxs)" by (rule mset_eq_imp_distinct_iff)
  with assms(2) s show ?thesis by (simp add: layout_def)
qed

lemma written_perm:
  assumes "mset ps = mset fxs" and "layout d fxs"
  shows "written env d ps = written env d fxs"
proof -
  let ?f = "\<lambda>fx. (target d fx, stored env fx)"
  have lp: "layout d ps" using assms by (rule layout_perm)
  have "distinct (map fst (map ?f ps))" "distinct (map fst (map ?f fxs))"
    using layout_distinct [OF lp] layout_distinct [OF assms(2)] by (simp_all add: comp_def)
  moreover have "set (map ?f ps) = set (map ?f fxs)"
    using mset_eq_setD [OF assms(1)] by simp
  ultimately show ?thesis
    unfolding written_def by (simp add: map_of_inject_set)
qed

lemma run_raises_write:
  assumes k: "k < length fxs"
    and mk: "os_makedirs env (test_dir env) True w = (Inr u, w1)"
    and pre: "write_all env (test_dir env) (take k fxs)
                (w1\<lparr>stdout := stdout w1 @ unlines (header_lines (test_dir env))\<rparr>) = (Inr u', w3)"
    and bad: "write_file env (test_dir env) (fxs ! k) w3 = (Inl e, w4)"
  shows "seq (statements env fxs) w = (Inl e, w4)"
proof -
  let ?d = "test_dir env"
  let ?w2 = "w1\<lparr>stdout := stdout w1 @ unlines (header_lines ?d)\<rparr>"
  have split: "fxs = take k fxs @ fxs ! k # drop (Suc k) fxs"
    using k by (simp add: id_take_nth_drop)
  have "write_all env ?d (take k fxs @ fxs ! k # drop (Suc k) fxs) ?w2 = (Inl e, w4)"
    using pre bad by (simp add: write_all_append write_all_Cons)
  with split have "write_all env ?d fxs ?w2 = (Inl e, w4)" by simp
  then show ?thesis
    using mk by (simp add: statements_run)
qed

text \<open>
  C8, as the script behaves. When the run in the order of the source returns, the run with
  the ten blocks in any other order returns as well and leaves the same file system: the
  ten paths are different, each block writes its own path only, and what it writes is the
  encoding of its own text.
\<close>

theorem C8_order_of_successful_writes:
  assumes "mset ps = mset fixtures"
    and "create_test_directory env w = (Inr d, w')"
  shows "seq (statements env fixtures) w = (Inr (), w')
         \<and> fst (seq (statements env ps) w) = Inr ()
         \<and> fs (snd (seq (statements env ps) w)) = fs w'"
proof -
  from assms(2) have run: "seq (statements env fixtures) w = (Inr (), w')"
    by (simp add: create_test_directory_statements returning_Inr)
  from run_ok_elim [OF layout_fixtures run] obtain w1 where
    mk: "os_makedirs env (test_dir env) True w = (Inr (), w1)"
    and ok: "\<forall>fx \<in> set fixtures. file_ok env (test_dir env) w1 fx"
    and fs': "fs w' = fs w1 ++ written env (test_dir env) fixtures"
    by blast
  have lp: "layout (test_dir env) ps"
    using assms(1) layout_fixtures by (rule layout_perm)
  have "\<forall>fx \<in> set ps. file_ok env (test_dir env) w1 fx"
    using ok mset_eq_setD [OF assms(1)] by simp
  from run_ok [OF lp mk this] written_perm [OF assms(1) layout_fixtures, of env env] fs' run
  show ?thesis by simp
qed

theorem C8_order_of_successful_writes_witness:
  "fst (seq (statements posix_env (rev fixtures)) fresh_world) = Inr ()
   \<and> fs (snd (seq (statements posix_env (rev fixtures)) fresh_world))
     = fs (snd (create_test_directory posix_env fresh_world))"
proof -
  let ?r = "create_test_directory posix_env fresh_world"
  have run: "?r = (Inr (lit ''/srv/app/test_preview_files''), snd ?r)"
    using example_run [of posix_env] by (simp add: posix_env_def scalar_def)
  have "mset (rev fixtures) = mset fixtures" by simp
  from C8_order_of_successful_writes [OF this run] show ?thesis
    by blast
qed

lemma locked_steps:
  defines "d \<equiv> lit ''/srv/app/test_preview_files''"
  defines "w1 \<equiv> fresh_world\<lparr>fs := (fs fresh_world)(d \<mapsto> Dir)\<rparr>"
  defines "w2 \<equiv> w1\<lparr>stdout := stdout w1 @ unlines (header_lines d)\<rparr>"
  shows "test_dir locked_env = d"
    and "os_makedirs locked_env d True fresh_world = (Inr (), w1)"
    and "write_file locked_env d (lit ''sample.json'', [sample_json_text]) w
           = (Inl (PermissionError (lit ''/srv/app/test_preview_files/sample.json'')), w)"
proof -
  show d: "test_dir locked_env = d"
    unfolding d_def by (rule example_test_dir) (simp_all add: locked_env_def posix_env_def)
  show "os_makedirs locked_env d True fresh_world = (Inr (), w1)"
    unfolding w1_def d_def
    by (rule os_makedirs_new)
       (simp_all add: example_parent fresh_world_def lit_eq_iff locked_env_def posix_env_def
          tail_test_dir [of locked_env, unfolded d d_def], simp add: lit_def)
  have tj: "target d (lit ''sample.json'', [sample_json_text])
              = lit ''/srv/app/test_preview_files/sample.json''"
    by (simp add: d_def target_def os_path_join_def isabs_def endswith_sep_def lit_def sep_def)
  show "write_file locked_env d (lit ''sample.json'', [sample_json_text]) w
           = (Inl (PermissionError (lit ''/srv/app/test_preview_files/sample.json'')), w)"
    by (simp add: write_file_def with_open_w_def open_w_def tj locked_env_def posix_env_def
        os_error_def)
qed

text \<open>
  The claim C8 as it is written speaks of every run. Where a write fails the order
  matters: with \<open>sample.json\<close> not writable, the script in the order of the source has
  written \<open>sample.txt\<close> when it stops, and the script with the first two blocks exchanged
  has written nothing.
\<close>

theorem C8_order_matters_counterexample:
  "mset json_first = mset fixtures
   \<and> fs (snd (create_test_directory locked_env fresh_world))
        (lit ''/srv/app/test_preview_files/sample.txt'')
      = Some (File (the (encode_utf8
            (sample_txt_line1 @ sample_txt_line2 @ sample_txt_line3 @ sample_txt_line4))))
   \<and> fs (snd (seq (statements locked_env json_first) fresh_world))
        (lit ''/srv/app/test_preview_files/sample.txt'') = None"
proof -
  let ?d = "lit ''/srv/app/test_preview_files''"
  let ?txt = "(lit ''sample.txt'',
               [sample_txt_line1, sample_txt_line2, sample_txt_line3, sample_txt_line4])"
  let ?json = "(lit ''sample.json'', [sample_json_text])"
  let ?w1 = "fresh_world\<lparr>fs := (fs fresh_world)(?d \<mapsto> Dir)\<rparr>"
  let ?w2 = "?w1\<lparr>stdout := stdout ?w1 @ unlines (header_lines ?d)\<rparr>"
  let ?w3 = "?w2\<lparr>fs := fs ?w2 ++ written locked_env ?d [?txt],
                 stdout := stdout ?w2 @ unlines (map (confirmation ?d) [?txt])\<rparr>"
  note d = locked_steps(1)
  note mk = locked_steps(2)
  have perm: "mset json_first = mset fixtures"
    by (simp add: json_first_def fixtures_def)
  have fx: "take 1 fixtures = [?txt]" "fixtures ! 1 = ?json" "json_first ! 0 = ?json"
    "take 0 json_first = []"
    by (simp_all add: fixtures_def json_first_def)
  have tt: "target ?d ?txt = lit ''/srv/app/test_preview_files/sample.txt''"
    by (simp add: target_def os_path_join_def isabs_def endswith_sep_def lit_def sep_def)
  have lay: "layout ?d [?txt]"
    using layout_fixtures [of locked_env] by (simp add: d layout_def fixtures_def)
  have "writes_ok locked_env (target ?d ?txt) (snd ?txt)"
  proof -
    have "\<forall>c \<in> set (snd ?txt). encode_text locked_env c \<noteq> None"
      using fixtures_scalar [of ?txt]
      by (simp add: encode_text_None_iff locked_env_def posix_env_def scalar_def fixtures_def)
    then show ?thesis
      unfolding writes_ok_def
      by (auto simp: locked_env_def posix_env_def split: option.splits)
  qed
  moreover have "open_ok locked_env ?w2 (target ?d ?txt)"
    unfolding tt
    by (simp add: open_ok_def locked_env_def posix_env_def lit_eq_iff fresh_world_def)
       (simp add: os_path_dirname_def os_path_split_def rstrip_sep_def lit_def sep_def Let_def)
  ultimately have ok1: "\<forall>fx \<in> set [?txt]. file_ok locked_env ?d ?w2 fx"
    by (simp add: file_ok_def)
  note rr = run_raises_write [where env = locked_env, unfolded d]
  have pre: "write_all locked_env ?d (take 1 fixtures) ?w2 = (Inr (), ?w3)"
    unfolding fx(1) by (rule write_all_ok [OF lay ok1])
  have bad: "write_file locked_env ?d (fixtures ! 1) ?w3
               = (Inl (PermissionError (lit ''/srv/app/test_preview_files/sample.json'')), ?w3)"
    unfolding fx by (rule locked_steps(3))
  have "seq (statements locked_env fixtures) fresh_world
               = (Inl (PermissionError (lit ''/srv/app/test_preview_files/sample.json'')), ?w3)"
    by (rule rr [OF _ mk pre bad]) (simp add: length_fixtures)
  then have src: "snd (create_test_directory locked_env fresh_world) = ?w3"
    by (simp add: create_test_directory_statements returning_def)
  have "written locked_env ?d [?txt] (target ?d ?txt) = Some (stored locked_env ?txt)"
    by (rule written_lookup [OF lay]) simp
  then have "fs ?w3 (lit ''/srv/app/test_preview_files/sample.txt'') = Some (stored locked_env ?txt)"
    by (simp add: tt)
  moreover have "stored locked_env ?txt = File (the (encode_utf8
            (sample_txt_line1 @ sample_txt_line2 @ sample_txt_line3 @ sample_txt_line4)))"
    by (simp add: stored_def literal_def encode_text_def locked_env_def posix_env_def
        translate_newlines_lf)
  ultimately have one: "fs (snd (create_test_directory locked_env fresh_world))
        (lit ''/srv/app/test_preview_files/sample.txt'')
      = Some (File (the (encode_utf8
            (sample_txt_line1 @ sample_txt_line2 @ sample_txt_line3 @ sample_txt_line4))))"
    by (simp only: src)
  have pre0: "write_all locked_env ?d (take 0 json_first) ?w2 = (Inr (), ?w2)"
    by (simp add: write_all_Nil)
  have bad0: "write_file locked_env ?d (json_first ! 0) ?w2
               = (Inl (PermissionError (lit ''/srv/app/test_preview_files/sample.json'')), ?w2)"
    unfolding fx by (rule locked_steps(3))
  have "seq (statements locked_env json_first) fresh_world
               = (Inl (PermissionError (lit ''/srv/app/test_preview_files/sample.json'')), ?w2)"
    by (rule rr [OF _ mk pre0 bad0]) (simp add: json_first_def)
  then have "fs (snd (seq (statements locked_env json_first) fresh_world))
        (lit ''/srv/app/test_preview_files/sample.txt'') = None"
    by (simp add: fresh_world_def lit_eq_iff)
  with perm one show ?thesis by (simp only:)
qed

lemma example_abspath:
  assumes "script_file env = lit ''test_preview.py''" and "getcwd env = lit ''/srv/app''"
  shows "os_path_abspath env (script_file env) = lit ''/srv/app/test_preview.py''"
proof -
  have j: "os_path_join (lit ''/srv/app'') (lit ''test_preview.py'') = lit ''/srv/app/test_preview.py''"
    by (simp add: os_path_join_def isabs_def endswith_sep_def lit_def sep_def)
  have n: "os_path_normpath (lit ''/srv/app/test_preview.py'') = lit ''/srv/app/test_preview.py''"
    by (simp add: os_path_normpath_def initial_slashes_def isabs_def lit_def sep_def
        normpath_step_def curdir_def pardir_def Let_def)
  show ?thesis
    using assms j n by (simp add: os_path_abspath_def) (simp add: isabs_def lit_def sep_def)
qed

lemma abs_env_abspath:
  "os_path_abspath abs_env (script_file abs_env) = lit ''/srv/app/test_preview.py''"
proof -
  have n: "os_path_normpath (lit ''/srv/app/test_preview.py'') = lit ''/srv/app/test_preview.py''"
    by (simp add: os_path_normpath_def initial_slashes_def isabs_def lit_def sep_def
        normpath_step_def curdir_def pardir_def Let_def)
  have "isabs (lit ''/srv/app/test_preview.py'')"
    by (simp add: isabs_def lit_def sep_def)
  with n show ?thesis by (simp add: os_path_abspath_def abs_env_def)
qed

lemma abs_env_test_dir: "test_dir abs_env = lit ''/srv/app/test_preview_files''"
proof -
  have "test_dir abs_env = test_dir posix_env"
    using example_abspath [of posix_env] abs_env_abspath
    by (simp add: test_dir_def posix_env_def)
  also have "\<dots> = lit ''/srv/app/test_preview_files''"
    by (rule example_test_dir) (simp_all add: posix_env_def)
  finally show ?thesis .
qed

text \<open>
  C9. Two runs that return, of a script at the same absolute path on the same platform,
  return the same directory, leave the same bytes in each of the ten files and print the
  same text, whatever the working directory, the spelling of \<open>__file__\<close>, the file system
  and the console held before, and whatever the operating system would have refused.
\<close>

theorem C9_runs_are_deterministic:
  assumes "create_test_directory env1 w1 = (Inr d1, w1')"
    and "create_test_directory env2 w2 = (Inr d2, w2')"
    and "os_path_abspath env1 (script_file env1) = os_path_abspath env2 (script_file env2)"
    and "linesep env1 = linesep env2"
  shows "d1 = d2
         \<and> (\<forall>fx \<in> set fixtures.
               fs w1' (os_path_join d1 (fst fx)) = fs w2' (os_path_join d2 (fst fx)))
         \<and> drop (length (stdout w1)) (stdout w1') = drop (length (stdout w2)) (stdout w2')"
proof -
  from create_ok_elim [OF assms(1)] obtain v1 where
    d1: "d1 = test_dir env1" and mk1: "os_makedirs env1 (test_dir env1) True w1 = (Inr (), v1)"
    and fs1: "fs w1' = fs v1 ++ written env1 (test_dir env1) fixtures"
    and out1: "stdout w1' = stdout w1 @ unlines (console (test_dir env1) fixtures)"
    by blast
  from create_ok_elim [OF assms(2)] obtain v2 where
    d2: "d2 = test_dir env2" and mk2: "os_makedirs env2 (test_dir env2) True w2 = (Inr (), v2)"
    and fs2: "fs w2' = fs v2 ++ written env2 (test_dir env2) fixtures"
    and out2: "stdout w2' = stdout w2 @ unlines (console (test_dir env2) fixtures)"
    by blast
  have same: "test_dir env1 = test_dir env2"
    using assms(3) by (simp add: test_dir_def)
  have st: "stored env1 fx = stored env2 fx" for fx
    using assms(4) by (simp add: stored_def encode_text_def)
  have "fs w1' (target d1 fx) = fs w2' (target d2 fx)" if fx: "fx \<in> set fixtures" for fx
    using written_lookup [OF layout_fixtures fx, of env1 env1]
      written_lookup [OF layout_fixtures fx, of env2 env2]
    by (simp add: fs1 fs2 d1 d2 same st)
  then show ?thesis
    by (simp add: d1 d2 same out1 out2 target_def)
qed

theorem C9_runs_are_deterministic_witness:
  "fs (snd (create_test_directory posix_env fresh_world))
      (lit ''/srv/app/test_preview_files/sample.csv'')
     = fs (snd (create_test_directory abs_env stale_world))
         (lit ''/srv/app/test_preview_files/sample.csv'')
   \<and> stdout (snd (create_test_directory posix_env fresh_world))
     = stdout (snd (create_test_directory abs_env stale_world))"
proof -
  let ?d = "lit ''/srv/app/test_preview_files''"
  let ?r1 = "create_test_directory posix_env fresh_world"
  let ?r2 = "create_test_directory abs_env stale_world"
  let ?csv = "(lit ''sample.csv'', [sample_csv_text])"
  have run1: "?r1 = (Inr ?d, snd ?r1)" and out1: "stdout (snd ?r1) = unlines (console ?d fixtures)"
    using example_run [of posix_env] by (simp_all add: posix_env_def scalar_def)
  note d = abs_env_test_dir
  have nodirs: "\<forall>fx \<in> set fixtures. fs stale_world (target (test_dir abs_env) fx) \<noteq> Some Dir"
  proof
    fix fx assume "fx \<in> set fixtures"
    with layout_fixtures [of abs_env] have "sep \<notin> set (fst fx)" by (simp add: layout_def)
    from example_target [OF this, of "snd fx"]
    show "fs stale_world (target (test_dir abs_env) fx) \<noteq> Some Dir"
      by (simp add: d) (simp add: stale_world_def fresh_world_def lit_def)
  qed
  have a1: "\<forall>c. fault abs_env c = None" by (simp add: abs_env_def)
  have a2: "list_all scalar (linesep abs_env)" by (simp add: abs_env_def scalar_def)
  have a3: "fs stale_world (os_path_dirname (test_dir abs_env)) = Some Dir"
    unfolding d example_parent by (simp add: stale_world_def fresh_world_def lit_eq_iff)
  have a4: "fs stale_world (test_dir abs_env) = None \<or> fs stale_world (test_dir abs_env) = Some Dir"
    unfolding d by (simp add: stale_world_def lit_eq_iff)
  from create_succeeds [OF a1 a2 a3 a4 nodirs]
  have run2: "?r2 = (Inr ?d, snd ?r2)" and out2: "stdout (snd ?r2) = unlines (console ?d fixtures)"
    by (simp_all add: d stale_world_def)
  have ab: "os_path_abspath posix_env (script_file posix_env)
              = os_path_abspath abs_env (script_file abs_env)"
    using example_abspath [of posix_env] abs_env_abspath by (simp add: posix_env_def)
  have ls: "linesep posix_env = linesep abs_env" by (simp add: posix_env_def abs_env_def)
  have fx: "?csv \<in> set fixtures" by (simp add: fixtures_def)
  have j: "os_path_join ?d (fst ?csv) = lit ''/srv/app/test_preview_files/sample.csv''"
    by (simp add: os_path_join_def isabs_def endswith_sep_def lit_def sep_def)
  from C9_runs_are_deterministic [OF run1 run2 ab ls] fx
  have "fs (snd ?r1) (os_path_join ?d (fst ?csv)) = fs (snd ?r2) (os_path_join ?d (fst ?csv))"
    by blast
  with out1 out2 show ?thesis by (simp only: j)
qed

text \<open>
  C10. Every file that a run creates or changes is at one of ten paths, the joins of the
  returned directory with the ten names. The names are different from each other and none
  holds a path separator, so each of these paths has the returned directory as its parent
  and the name as its last component, the ten paths are different, and after a run that
  returns each of them holds a file.
\<close>

theorem C10_targets_inside_and_distinct:
  assumes "create_test_directory env w = (Inr d, w')"
  shows "(\<forall>p b. fs w' p = Some (File b) \<and> fs w p \<noteq> Some (File b) \<longrightarrow>
            p \<in> (\<lambda>fx. os_path_join d (fst fx)) ` set fixtures)
         \<and> (\<forall>fx \<in> set fixtures.
               sep \<notin> set (fst fx) \<and> fst fx \<noteq> []
             \<and> os_path_split (os_path_join d (fst fx)) = (d, fst fx)
             \<and> (\<exists>b. fs w' (os_path_join d (fst fx)) = Some (File b)))
         \<and> distinct (map fst fixtures)
         \<and> distinct (map (\<lambda>fx. os_path_join d (fst fx)) fixtures)
         \<and> card ((\<lambda>fx. os_path_join d (fst fx)) ` set fixtures) = 10"
proof -
  from create_ok_elim [OF assms] obtain w1 where
    d: "d = test_dir env" and mk: "os_makedirs env d True w = (Inr (), w1)"
    and fs': "fs w' = fs w1 ++ written env d fixtures"
    by blast
  have lay: "layout d fixtures" unfolding d by (rule layout_fixtures)
  have tdef: "(\<lambda>fx. os_path_join d (fst fx)) = target d"
    by (simp add: target_def [abs_def])
  have g: "grows (length d) w w1" using mk by (rule os_makedirs_grows)
  have inside: "p \<in> target d ` set fixtures"
    if "fs w' p = Some (File b) \<and> fs w p \<noteq> Some (File b)" for p b
  proof (rule ccontr)
    assume "p \<notin> target d ` set fixtures"
    then have "fs w' p = fs w1 p" by (simp add: fs' map_add_def written_other)
    with that grows_files [OF g, of p b] show False by simp
  qed
  have each: "sep \<notin> set (fst fx) \<and> fst fx \<noteq> []
             \<and> os_path_split (os_path_join d (fst fx)) = (d, fst fx)
             \<and> (\<exists>b. fs w' (os_path_join d (fst fx)) = Some (File b))"
    if fx: "fx \<in> set fixtures" for fx
  proof -
    have "fs w' (target d fx) = Some (stored env fx)"
      by (simp add: fs' written_lookup [OF lay fx])
    with lay fx layout_target(1) [OF lay fx] show ?thesis
      by (simp add: layout_def stored_def target_def)
  qed
  have dist: "distinct (map (target d) fixtures)" using lay by (rule layout_distinct)
  then have "card (set (map (target d) fixtures)) = length (map (target d) fixtures)"
    by (rule distinct_card)
  then have card: "card (target d ` set fixtures) = 10"
    by (simp add: length_fixtures)
  from lay have "distinct (map fst fixtures)" by (simp add: layout_def)
  with inside each dist card show ?thesis
    unfolding tdef by blast
qed

theorem C10_targets_inside_and_distinct_witness:
  "os_path_split (lit ''/srv/app/test_preview_files/README.md'')
     = (lit ''/srv/app/test_preview_files'', lit ''README.md'')
   \<and> sep \<notin> set (lit ''README.md'')
   \<and> fs (snd (create_test_directory posix_env fresh_world))
        (lit ''/srv/app/test_preview_files/README.md'')
      = Some (File (the (encode_utf8 sample_md_text)))"
proof -
  let ?d = "lit ''/srv/app/test_preview_files''"
  let ?r = "create_test_directory posix_env fresh_world"
  let ?md = "(lit ''README.md'', [sample_md_text])"
  have run: "?r = (Inr ?d, snd ?r)"
    and fsr: "fs (snd ?r) = (fs fresh_world)(?d \<mapsto> Dir) ++ written posix_env ?d fixtures"
    using example_run [of posix_env] by (simp_all add: posix_env_def scalar_def)
  have fx: "?md \<in> set fixtures" by (simp add: fixtures_def)
  have j: "os_path_join ?d (lit ''README.md'') = lit ''/srv/app/test_preview_files/README.md''"
    by (simp add: os_path_join_def isabs_def endswith_sep_def lit_def sep_def)
  have d: "test_dir posix_env = ?d"
    by (rule example_test_dir) (simp_all add: posix_env_def)
  have "written posix_env ?d fixtures (target ?d ?md) = Some (stored posix_env ?md)"
    using written_lookup [OF layout_fixtures fx, of posix_env posix_env] by (simp add: d)
  then have "fs (snd ?r) (target ?d ?md) = Some (stored posix_env ?md)"
    by (simp add: fsr)
  moreover have "target ?d ?md = lit ''/srv/app/test_preview_files/README.md''"
    using j by (simp add: target_def)
  moreover have "stored posix_env ?md = File (the (encode_utf8 sample_md_text))"
    by (simp add: stored_def literal_def encode_text_def posix_env_def translate_newlines_lf)
  ultimately have held: "fs (snd ?r) (lit ''/srv/app/test_preview_files/README.md'')
      = Some (File (the (encode_utf8 sample_md_text)))"
    by (simp only:)
  from C10_targets_inside_and_distinct [OF run] fx
  have "sep \<notin> set (fst ?md) \<and> os_path_split (os_path_join ?d (fst ?md)) = (?d, fst ?md)"
    by blast
  with held show ?thesis by (simp add: j)
qed

end
